theory Spec2Isabelle
  imports Complex_Main "HOL-Library.AList" "HOL-Library.Product_Lexorder"
    "HOL-Library.Log_Nat"
begin

section \<open>Data model of the ledger store\<close>

text \<open>
  The application keeps its data in tables of a hosted relational store and reads them
  back with filtered queries. The tables are modelled as lists of records, a query as a
  \<open>filter\<close> (and a stable sort where the source orders the rows), an insert as an
  append. Amounts are Python floats in the source. They are modelled as rationals, and the
  arithmetic is read in two ways. The statements, the worksheet, the cash flow and the
  inventory card are modelled in exact arithmetic. Where a property depends on the
  rounding of binary floating point (the balance test of the posting routes, the
  comparison of the two balance aggregators) the operations are modelled as the
  interpreter performs them, each rounded to the nearest binary64 float (section
  \<open>Binary floating point\<close>). On amounts that are whole numbers of a total magnitude below
  \<open>2 ^ 53\<close> the two readings coincide, every float operation being exact there. Calendar
  dates are modelled
  as day numbers (\<open>int\<close>), the day before \<open>d\<close> being \<open>d - 1\<close>. The store is taken to
  answer every query and to accept every insert, so the branches that catch its failures
  are not modelled; neither are the session check of the routes, the parsing of form
  fields and the rendering of pages.
\<close>

type_synonym money = rat
type_synonym date = int

record account =
  account_code :: string
  account_name :: string
  normal_balance :: string
  beginning_balance :: money

text \<open>
  A row of \<open>journal_entries\<close>. The columns \<open>ref_code\<close> and \<open>transaction_id\<close> are read
  with \<open>entry.get(..) or ..\<close>, which treats a missing value and the empty string alike:
  the empty string stands for both.
\<close>

record journal_entry =
  je_id :: nat
  je_date :: date
  je_account_code :: string
  je_account_name :: string
  je_description :: string
  debit :: money
  credit :: money
  journal_type :: string
  ref_code :: string
  transaction_id :: string

record inventory_row =
  ic_id :: nat
  ic_date :: date
  doc_no :: string
  ic_description :: string
  product_name :: string
  purchase_quantity :: money
  purchase_unit_price :: money
  purchase_amount :: money
  sales_quantity :: money
  sales_unit_price :: money
  sales_amount :: money
  balance_quantity :: money
  balance_unit_price :: money
  balance_amount :: money
  employee :: string

text \<open>A row of \<open>sales\<close> or of \<open>purchases\<close> (the two tables have the same columns here,
  \<open>item_type\<close> being empty for a sale).\<close>

record trade_row =
  tr_id :: nat
  tr_date :: date
  item_type :: string
  item_name :: string
  quantity :: money
  unit_price :: money
  total_amount :: money
  employee_username :: string
  status :: string

record db =
  accounts :: "account list"
  journal_entries :: "journal_entry list"
  inventory_card :: "inventory_row list"
  sales :: "trade_row list"
  purchases :: "trade_row list"

text \<open>\<open>str.startswith\<close>, and its form with a tuple of prefixes.\<close>

definition startswith :: "string \<Rightarrow> string \<Rightarrow> bool" where
  "startswith s p = (take (length p) s = p)"

definition startswith_any :: "string \<Rightarrow> string list \<Rightarrow> bool" where
  "startswith_any s ps = list_ex (startswith s) ps"

section \<open>Balance aggregation\<close>

text \<open>
  \<open>get_all_accounts\<close> selects the accounts table ordered by \<open>account_code\<close>; the list
  \<open>accounts\<close> of the state is that table in the order the store returns it.
\<close>

definition get_all_accounts :: "db \<Rightarrow> account list" where
  "get_all_accounts s = accounts s"

text \<open>The optional filters of the balance queries: \<open>if end_date: query.lte('date', end_date)\<close>
  and \<open>if journal_types: query.in_('journal_type', journal_types)\<close>; an empty list of
  journal types is falsy and filters nothing, as \<open>None\<close> does.\<close>

definition date_ok :: "date option \<Rightarrow> journal_entry \<Rightarrow> bool" where
  "date_ok end_date e = (case end_date of None \<Rightarrow> True | Some d \<Rightarrow> je_date e \<le> d)"

definition type_ok :: "string list option \<Rightarrow> journal_entry \<Rightarrow> bool" where
  "type_ok journal_types e =
     (case journal_types of None \<Rightarrow> True
      | Some ts \<Rightarrow> (if ts = [] then True else journal_type e \<in> set ts))"

definition get_ledger_balance :: "db \<Rightarrow> string \<Rightarrow> date option \<Rightarrow> string list option \<Rightarrow> money" where
  "get_ledger_balance s code end_date journal_types =
     (case find (\<lambda>acc. account_code acc = code) (get_all_accounts s) of
        None \<Rightarrow> 0
      | Some acct \<Rightarrow>
          (let entries = filter (\<lambda>e. je_account_code e = code \<and> date_ok end_date e
                                     \<and> type_ok journal_types e) (journal_entries s);
               total_debit = sum_list (map debit entries);
               total_credit = sum_list (map credit entries)
           in if normal_balance acct = ''debit''
              then beginning_balance acct + (total_debit - total_credit)
              else beginning_balance acct + (total_credit - total_debit)))"

text \<open>
  A Python dict is an association list with distinct keys in insertion order:
  \<open>d[k] = v\<close> is \<open>AList.update k v d\<close> (it overwrites in place or appends), \<open>d.get(k)\<close> is
  \<open>map_of d k\<close>. A dict comprehension over a list inserts the items from left to right.
\<close>

definition dict_of :: "('a \<Rightarrow> 'k) \<Rightarrow> ('a \<Rightarrow> 'v) \<Rightarrow> 'a list \<Rightarrow> ('k \<times> 'v) list" where
  "dict_of key val xs = fold (\<lambda>x d. AList.update (key x) (val x) d) xs []"

record final_balance =
  fb_code :: string
  fb_name :: string
  fb_normal_balance :: string
  amount :: money

text \<open>The body of the loop over the fetched entries in \<open>get_final_balances\<close>. The lookup
  \<open>accounts_map[code]\<close> cannot fail there, both dicts having the same keys; the model
  leaves the balances unchanged in that unreachable case.\<close>

definition add_entry ::
  "(string \<times> account) list \<Rightarrow> journal_entry \<Rightarrow> (string \<times> money) list \<Rightarrow> (string \<times> money) list" where
  "add_entry accounts_map entry balances =
     (let code = je_account_code entry in
      case map_of balances code of
        None \<Rightarrow> balances
      | Some b \<Rightarrow>
          (case map_of accounts_map code of
             None \<Rightarrow> balances
           | Some acct \<Rightarrow>
               if normal_balance acct = ''debit''
               then AList.update code (b + (debit entry - credit entry)) balances
               else AList.update code (b + (credit entry - debit entry)) balances))"

definition final_balances_dict :: "db \<Rightarrow> date option \<Rightarrow> string list option \<Rightarrow> (string \<times> money) list" where
  "final_balances_dict s end_date journal_types =
     (let accts = get_all_accounts s;
          accounts_map = dict_of account_code (\<lambda>acc. acc) accts;
          balances = dict_of account_code beginning_balance accts;
          entries = filter (\<lambda>e. date_ok end_date e \<and> type_ok journal_types e) (journal_entries s)
      in fold (add_entry accounts_map) entries balances)"

text \<open>The body of the loop that builds \<open>final_data\<close>: an account is reported when its
  balance exceeds the tolerance or its code has an equity, revenue or expense prefix.\<close>

definition final_data_item :: "(string \<times> account) list \<Rightarrow> string \<times> money \<Rightarrow> final_balance list" where
  "final_data_item accounts_map item =
     (let code = fst item; final_balance = snd item in
      if \<bar>final_balance\<bar> > 1 / 100 \<or> startswith_any code [''3-'', ''4-'', ''5-'', ''6-'']
      then (case map_of accounts_map code of
              None \<Rightarrow> []
            | Some acct \<Rightarrow>
                [\<lparr>fb_code = code, fb_name = account_name acct,
                  fb_normal_balance = normal_balance acct, amount = final_balance\<rparr>])
      else [])"

definition get_final_balances :: "db \<Rightarrow> date option \<Rightarrow> string list option \<Rightarrow> final_balance list" where
  "get_final_balances s end_date journal_types =
     (let accounts_map = dict_of account_code (\<lambda>acc. acc) (get_all_accounts s)
      in concat (map (final_data_item accounts_map)
                     (final_balances_dict s end_date journal_types)))"

section \<open>Binary floating point\<close>

text \<open>
  A Python float is an IEEE binary64 number: 53 significant bits, results rounded to the
  nearest float, a tie going to the float with an even last bit. A float is modelled by
  the rational it denotes. \<open>float x\<close> is the float nearest to \<open>x\<close>: with \<open>binade \<bar>x\<bar>\<close> the
  exponent \<open>e\<close> such that \<open>2 ^ e \<le> \<bar>x\<bar> < 2 ^ (e + 1)\<close>, the floats around \<open>x\<close> are the multiples
  of \<open>2 ^ (e - 52)\<close>. It models the conversion \<open>float(v)\<close> of a stored or typed decimal
  \<open>v\<close> and the rounding of every arithmetic result. The exponent range of binary64 is not
  modelled: no amount of the ledger comes near overflow or the subnormal numbers.
\<close>

definition round_half_even :: "rat \<Rightarrow> int" where
  "round_half_even y =
     (let f = \<lfloor>y\<rfloor>; r = y - of_int f
      in if r < 1 / 2 then f else if 1 / 2 < r then f + 1 else if even f then f else f + 1)"

definition binade :: "rat \<Rightarrow> int" where
  "binade x = (case quotient_of x of (p, q) \<Rightarrow>
       let k = bitlen p - bitlen q in if 2 powi k \<le> x then k else k - 1)"

definition float :: "rat \<Rightarrow> rat" where
  "float x = (if x = 0 then 0
     else let ulp = 2 powi (binade \<bar>x\<bar> - 52)
          in sgn x * of_int (round_half_even (\<bar>x\<bar> / ulp)) * ulp)"

text \<open>Float addition and subtraction, and the builtin \<open>sum\<close>, which starts from 0 and adds
  the items from left to right.\<close>

definition fadd :: "rat \<Rightarrow> rat \<Rightarrow> rat" where
  "fadd x y = float (x + y)"

definition fsub :: "rat \<Rightarrow> rat \<Rightarrow> rat" where
  "fsub x y = float (x - y)"

definition py_sum :: "rat list \<Rightarrow> rat" where
  "py_sum xs = foldl fadd 0 xs"

text \<open>\<open>parse_rupiah\<close> strips the currency mark and the thousands separators from a form
  field and reads the rest with \<open>float\<close>; its argument here is the decimal number the
  field denotes (0 for an empty field).\<close>

definition parse_rupiah :: "rat \<Rightarrow> money" where
  "parse_rupiah v = float v"

section \<open>Balance aggregation on floats\<close>

text \<open>\<open>get_ledger_balance\<close> and \<open>get_final_balances\<close> once more, with the conversions and the
  float operations of the source written out: \<open>get_ledger_balance\<close> adds the two totals to
  the beginning balance, \<open>get_final_balances\<close> adds debit minus credit line by line.\<close>

definition get_ledger_balance_float :: "db \<Rightarrow> string \<Rightarrow> date option \<Rightarrow> string list option \<Rightarrow> money" where
  "get_ledger_balance_float s code end_date journal_types =
     (case find (\<lambda>acc. account_code acc = code) (get_all_accounts s) of
        None \<Rightarrow> 0
      | Some acct \<Rightarrow>
          (let balance = float (beginning_balance acct);
               entries = filter (\<lambda>e. je_account_code e = code \<and> date_ok end_date e
                                     \<and> type_ok journal_types e) (journal_entries s);
               total_debit = py_sum (map (\<lambda>e. float (debit e)) entries);
               total_credit = py_sum (map (\<lambda>e. float (credit e)) entries)
           in if normal_balance acct = ''debit''
              then fadd balance (fsub total_debit total_credit)
              else fadd balance (fsub total_credit total_debit)))"

definition add_entry_float ::
  "(string \<times> account) list \<Rightarrow> journal_entry \<Rightarrow> (string \<times> money) list \<Rightarrow> (string \<times> money) list" where
  "add_entry_float accounts_map entry balances =
     (let code = je_account_code entry in
      case map_of balances code of
        None \<Rightarrow> balances
      | Some b \<Rightarrow>
          (let debit = float (debit entry); credit = float (credit entry) in
           case map_of accounts_map code of
             None \<Rightarrow> balances
           | Some acct \<Rightarrow>
               if normal_balance acct = ''debit''
               then AList.update code (fadd b (fsub debit credit)) balances
               else AList.update code (fadd b (fsub credit debit)) balances))"

definition final_balances_dict_float :: "db \<Rightarrow> date option \<Rightarrow> string list option \<Rightarrow> (string \<times> money) list" where
  "final_balances_dict_float s end_date journal_types =
     (let accts = get_all_accounts s;
          accounts_map = dict_of account_code (\<lambda>acc. acc) accts;
          balances = dict_of account_code (\<lambda>acc. float (beginning_balance acc)) accts;
          entries = filter (\<lambda>e. date_ok end_date e \<and> type_ok journal_types e) (journal_entries s)
      in fold (add_entry_float accounts_map) entries balances)"

definition final_data_item_float :: "(string \<times> account) list \<Rightarrow> string \<times> money \<Rightarrow> final_balance list" where
  "final_data_item_float accounts_map item =
     (let code = fst item; final_balance = snd item in
      if \<bar>final_balance\<bar> > float (1 / 100) \<or> startswith_any code [''3-'', ''4-'', ''5-'', ''6-'']
      then (case map_of accounts_map code of
              None \<Rightarrow> []
            | Some acct \<Rightarrow>
                [\<lparr>fb_code = code, fb_name = account_name acct,
                  fb_normal_balance = normal_balance acct, amount = final_balance\<rparr>])
      else [])"

definition get_final_balances_float :: "db \<Rightarrow> date option \<Rightarrow> string list option \<Rightarrow> final_balance list" where
  "get_final_balances_float s end_date journal_types =
     (let accounts_map = dict_of account_code (\<lambda>acc. acc) (get_all_accounts s)
      in concat (map (final_data_item_float accounts_map)
                     (final_balances_dict_float s end_date journal_types)))"

section \<open>Journal posting\<close>

text \<open>The store assigns the primary key of an inserted row: a number above every key in use.\<close>

definition fresh_id :: "nat list \<Rightarrow> nat" where
  "fresh_id ids = Suc (fold max ids 0)"

text \<open>\<open>create_journal_entry\<close> inserts one row (\<open>float(debit) if debit else 0\<close> is the amount
  itself); \<open>create_adjustment_entry\<close> is the same insert with journal type \<open>AJ\<close>.\<close>

definition create_journal_entry ::
  "db \<Rightarrow> date \<Rightarrow> string \<Rightarrow> string \<Rightarrow> string \<Rightarrow> money \<Rightarrow> money \<Rightarrow> string \<Rightarrow> string \<Rightarrow> db" where
  "create_journal_entry s dt code name description dr cr jtype ref =
     s\<lparr>journal_entries := journal_entries s @
        [\<lparr>je_id = fresh_id (map je_id (journal_entries s)), je_date = dt,
          je_account_code = code, je_account_name = name, je_description = description,
          debit = (if dr \<noteq> 0 then dr else 0), credit = (if cr \<noteq> 0 then cr else 0),
          journal_type = jtype, ref_code = ref, transaction_id = ''''\<rparr>]\<rparr>"

definition create_adjustment_entry ::
  "db \<Rightarrow> date \<Rightarrow> string \<Rightarrow> string \<Rightarrow> string \<Rightarrow> money \<Rightarrow> money \<Rightarrow> string \<Rightarrow> db" where
  "create_adjustment_entry s dt code name description dr cr ref =
     create_journal_entry s dt code name description dr cr ''AJ'' ref"

text \<open>What a posting route reports back (its flash message).\<close>

datatype post_outcome = Saved | AccountNotChosen | AmountNotPositive | NotBalanced

text \<open>The form of the general-journal route; an amount field holds the decimal number
  typed, which the route reads with \<open>parse_rupiah\<close>.\<close>

record gj_form =
  gj_date :: date
  gj_ref_code :: string
  debit_account :: string
  debit_description :: string
  debit_amount :: rat
  credit_account :: string
  credit_description :: string
  credit_amount :: rat

text \<open>The balance test \<open>abs(debit_amount - credit_amount) > 0.01\<close> is made on floats: the
  difference is rounded, and \<open>0.01\<close> is the float nearest to one hundredth.\<close>

definition akuntan_journal_gj :: "db \<Rightarrow> gj_form \<Rightarrow> post_outcome \<times> db" where
  "akuntan_journal_gj s f =
     (let debit_amt = parse_rupiah (debit_amount f);
          credit_amt = parse_rupiah (credit_amount f)
      in if debit_account f = [] \<or> credit_account f = [] then (AccountNotChosen, s)
      else if debit_amt \<le> 0 \<or> credit_amt \<le> 0 then (AmountNotPositive, s)
      else if \<bar>fsub debit_amt credit_amt\<bar> > float (1 / 100) then (NotBalanced, s)
      else
        (let accts = get_all_accounts s;
             s1 = (case find (\<lambda>a. account_code a = debit_account f) accts of
                     None \<Rightarrow> s
                   | Some debit_acc \<Rightarrow>
                       create_journal_entry s (gj_date f) (account_code debit_acc)
                         (account_name debit_acc) (debit_description f) debit_amt 0
                         ''GJ'' (gj_ref_code f));
             s2 = (case find (\<lambda>a. account_code a = credit_account f) accts of
                     None \<Rightarrow> s1
                   | Some credit_acc \<Rightarrow>
                       create_journal_entry s1 (gj_date f) (account_code credit_acc)
                         (account_name credit_acc) (credit_description f) 0 credit_amt
                         ''GJ'' (gj_ref_code f))
         in (Saved, s2)))"

text \<open>A row of the adjustment-journal form (fields \<open>account_code_i\<close>, \<open>description_i\<close>,
  \<open>debit_i\<close>, \<open>credit_i\<close>, the amounts as the decimal numbers typed); the route reads the
  rows 0 to 9.\<close>

record aj_row =
  aj_account_code :: string
  aj_description :: string
  aj_debit :: rat
  aj_credit :: rat

record aj_entry =
  ae_account_code :: string
  ae_account_name :: string
  ae_description :: string
  ae_debit :: money
  ae_credit :: money

text \<open>The loop collecting \<open>entries\<close>: a row without account code is skipped, and so is a
  row whose account code is not found among the accounts.\<close>

definition collect_entry :: "db \<Rightarrow> aj_row \<Rightarrow> aj_entry list" where
  "collect_entry s row =
     (if aj_account_code row = [] then []
      else case find (\<lambda>a. account_code a = aj_account_code row) (get_all_accounts s) of
             None \<Rightarrow> []
           | Some acct \<Rightarrow>
               [\<lparr>ae_account_code = aj_account_code row, ae_account_name = account_name acct,
                 ae_description = aj_description row, ae_debit = parse_rupiah (aj_debit row),
                 ae_credit = parse_rupiah (aj_credit row)\<rparr>])"

definition post_adjustment_entry :: "date \<Rightarrow> string \<Rightarrow> aj_entry \<Rightarrow> db \<Rightarrow> db" where
  "post_adjustment_entry dt ref entry st =
     create_adjustment_entry st dt (ae_account_code entry) (ae_account_name entry)
       (ae_description entry) (ae_debit entry) (ae_credit entry) ref"

definition akuntan_adjustment_journal :: "db \<Rightarrow> date \<Rightarrow> string \<Rightarrow> aj_row list \<Rightarrow> post_outcome \<times> db" where
  "akuntan_adjustment_journal s dt ref rows =
     (let entries = concat (map (collect_entry s) (take 10 rows));
          total_debit = py_sum (map ae_debit entries);
          total_credit = py_sum (map ae_credit entries)
      in if \<bar>fsub total_debit total_credit\<bar> > float (1 / 100) then (NotBalanced, s)
         else (Saved, fold (post_adjustment_entry dt ref) entries s))"

section \<open>Inventory costing ledger\<close>

text \<open>Decimal formatting of a row id: \<open>str(n)\<close> and the format \<open>{n:03d}\<close>.\<close>

fun str_nat :: "nat \<Rightarrow> string" where
  "str_nat n = (if n < 10 then [''0123456789'' ! n]
                else str_nat (n div 10) @ [''0123456789'' ! (n mod 10)])"

declare str_nat.simps [simp del]

definition fmt_03d :: "nat \<Rightarrow> string" where
  "fmt_03d n = replicate (3 - length (str_nat n)) CHR ''0'' @ str_nat n"

text \<open>\<open>get_last_inventory_entry\<close>: the rows of the product ordered by id, descending, limit 1.\<close>

definition get_last_inventory_entry :: "db \<Rightarrow> string \<Rightarrow> inventory_row option" where
  "get_last_inventory_entry s product =
     (case rev (sort_key ic_id (filter (\<lambda>r. product_name r = product) (inventory_card s))) of
        [] \<Rightarrow> None
      | r # _ \<Rightarrow> Some r)"

datatype error = InsufficientStock | InvalidItemType

record trade_args =
  ta_date :: date
  ta_item_type :: string
  ta_item_name :: string
  ta_quantity :: money
  ta_unit_price :: money
  ta_total_amount :: money
  ta_employee_username :: string
  ta_description :: string
  ta_ref_code_prefix :: string

definition journal_line ::
  "nat \<Rightarrow> date \<Rightarrow> string \<Rightarrow> string \<Rightarrow> string \<Rightarrow> money \<Rightarrow> money \<Rightarrow> string \<Rightarrow> journal_entry" where
  "journal_line i dt code name description dr cr ref =
     \<lparr>je_id = i, je_date = dt, je_account_code = code, je_account_name = name,
      je_description = description, debit = dr, credit = cr, journal_type = ''GJ'',
      ref_code = ref, transaction_id = ''''\<rparr>"

text \<open>The accounts a purchase debits, by item type (\<open>account_mapping\<close>; the credit side is
  always cash).\<close>

definition account_mapping :: "(string \<times> string \<times> string) list" where
  "account_mapping =
     [(''bibit'', (''1-1200'', ''Persediaan Ikan Mujair'')),
      (''perlengkapan'', (''1-1300'', ''Perlengkapan'')),
      (''peralatan'', (''1-2200'', ''Peralatan''))]"

text \<open>The inventory-card row a movement appends, with the running balance recomputed from
  the last balance of the product.\<close>

definition card_row ::
  "nat \<Rightarrow> trade_args \<Rightarrow> string \<Rightarrow> string \<Rightarrow> money \<Rightarrow> money \<Rightarrow> money \<Rightarrow> money \<Rightarrow> money \<Rightarrow> money
     \<Rightarrow> money \<Rightarrow> money \<Rightarrow> inventory_row" where
  "card_row i a ref final_desc pq pu pa sq su sa new_balance_qty new_balance_amount =
     \<lparr>ic_id = i, ic_date = ta_date a, doc_no = ref, ic_description = final_desc,
      product_name = ta_item_name a,
      purchase_quantity = pq, purchase_unit_price = pu, purchase_amount = pa,
      sales_quantity = sq, sales_unit_price = su, sales_amount = sa,
      balance_quantity = new_balance_qty,
      balance_unit_price = (if new_balance_qty > 0 then new_balance_amount / new_balance_qty else 0),
      balance_amount = new_balance_amount,
      employee = ta_employee_username a\<rparr>"

text \<open>
  \<open>process_purchase\<close>. The argument \<open>now\<close> is the clock reading formatted into the reference
  code. The function catches every exception and returns \<open>False\<close>; rows already inserted
  stay. The purchase of an item of type \<open>bibit\<close> also appends an inventory-card row.
\<close>

definition process_purchase :: "db \<Rightarrow> string \<Rightarrow> trade_args \<Rightarrow> bool \<times> db" where
  "process_purchase s now a =
     (let purchase_id = fresh_id (map tr_id (purchases s));
          s1 = s\<lparr>purchases := purchases s @
                 [\<lparr>tr_id = purchase_id, tr_date = ta_date a, item_type = ta_item_type a,
                   item_name = ta_item_name a, quantity = ta_quantity a,
                   unit_price = ta_unit_price a, total_amount = ta_total_amount a,
                   employee_username = ta_employee_username a, status = ''approved''\<rparr>]\<rparr>;
          ref = ta_ref_code_prefix a @ now @ fmt_03d purchase_id;
          final_desc = (if ta_description a \<noteq> [] then ta_description a
                        else ''Pembelian '' @ ta_item_name a)
      in case map_of account_mapping (ta_item_type a) of
           None \<Rightarrow> (False, s1)
         | Some debit_side \<Rightarrow>
             (let i = fresh_id (map je_id (journal_entries s1));
                  s2 = s1\<lparr>journal_entries := journal_entries s1 @
                         [journal_line i (ta_date a) (fst debit_side) (snd debit_side) final_desc
                            (ta_total_amount a) 0 ref,
                          journal_line (Suc i) (ta_date a) ''1-1000'' ''Kas'' final_desc
                            0 (ta_total_amount a) ref]\<rparr>
              in if ta_item_type a = ''bibit''
                 then
                   (let last_qty = (case get_last_inventory_entry s2 (ta_item_name a) of
                                      None \<Rightarrow> 0 | Some last_data \<Rightarrow> balance_quantity last_data);
                        last_balance_amount =
                                   (case get_last_inventory_entry s2 (ta_item_name a) of
                                      None \<Rightarrow> 0 | Some last_data \<Rightarrow> balance_amount last_data);
                        new_balance_qty = last_qty + ta_quantity a;
                        new_balance_amount = last_balance_amount + ta_total_amount a
                    in (True, s2\<lparr>inventory_card := inventory_card s2 @
                         [card_row (fresh_id (map ic_id (inventory_card s2))) a ref final_desc
                            (ta_quantity a) (ta_unit_price a) (ta_total_amount a) 0 0 0
                            new_balance_qty new_balance_amount]\<rparr>))
                 else (True, s2)))"

text \<open>
  \<open>process_sale\<close>. It returns \<open>True\<close> or re-raises the exception it caught (\<open>raise e\<close>);
  the result is \<open>Inr True\<close> or \<open>Inl\<close> of the error, next to the state the call leaves. The
  row of \<open>sales\<close> is inserted before the stock is checked.
\<close>

definition process_sale :: "db \<Rightarrow> string \<Rightarrow> trade_args \<Rightarrow> (error + bool) \<times> db" where
  "process_sale s now a =
     (let sale_id = fresh_id (map tr_id (sales s));
          s1 = s\<lparr>sales := sales s @
                 [\<lparr>tr_id = sale_id, tr_date = ta_date a, item_type = '''',
                   item_name = ta_item_name a, quantity = ta_quantity a,
                   unit_price = ta_unit_price a, total_amount = ta_total_amount a,
                   employee_username = ta_employee_username a, status = ''completed''\<rparr>]\<rparr>;
          ref = ta_ref_code_prefix a @ now @ fmt_03d sale_id;
          final_desc = (if ta_description a \<noteq> [] then ta_description a
                        else ''Penjualan '' @ ta_item_name a)
      in case get_last_inventory_entry s1 (ta_item_name a) of
           None \<Rightarrow> (Inl InsufficientStock, s1)
         | Some last_entry \<Rightarrow>
             if balance_quantity last_entry < ta_quantity a then (Inl InsufficientStock, s1)
             else
               (let hpp_unit_price = balance_unit_price last_entry;
                    hpp_total_amount = ta_quantity a * hpp_unit_price;
                    last_qty = balance_quantity last_entry;
                    last_balance_amount = balance_amount last_entry;
                    i = fresh_id (map je_id (journal_entries s1));
                    s2 = s1\<lparr>journal_entries := journal_entries s1 @
                           [journal_line i (ta_date a) ''1-1000'' ''Kas'' final_desc
                              (ta_total_amount a) 0 ref,
                            journal_line (i + 1) (ta_date a) ''4-1000'' ''Pendapatan Penjualan''
                              final_desc 0 (ta_total_amount a) ref,
                            journal_line (i + 2) (ta_date a) ''5-1000'' ''Beban Pokok Penjualan''
                              (''HPP untuk '' @ ref) hpp_total_amount 0 ref,
                            journal_line (i + 3) (ta_date a) ''1-1200'' ''Persediaan Ikan Mujair''
                              (''HPP untuk '' @ ref) 0 hpp_total_amount ref]\<rparr>;
                    new_balance_qty = last_qty - ta_quantity a;
                    new_balance_amount = last_balance_amount - hpp_total_amount
                in (Inr True, s2\<lparr>inventory_card := inventory_card s2 @
                     [card_row (fresh_id (map ic_id (inventory_card s2))) a ref final_desc
                        0 0 0 (ta_quantity a) hpp_unit_price hpp_total_amount
                        new_balance_qty new_balance_amount]\<rparr>)))"

text \<open>
  \<open>recalculate_inventory_balances\<close>: all rows ordered by date, then id; two running totals
  starting at zero; each row's balance columns are overwritten by an update that selects
  the row by id.
\<close>

definition update_balances ::
  "nat \<Rightarrow> money \<Rightarrow> money \<Rightarrow> money \<Rightarrow> inventory_row \<Rightarrow> inventory_row" where
  "update_balances i qty amt avg r =
     (if ic_id r = i
      then r\<lparr>balance_quantity := qty, balance_amount := amt, balance_unit_price := avg\<rparr>
      else r)"

fun recalc_loop :: "inventory_row list \<Rightarrow> money \<Rightarrow> money \<Rightarrow> inventory_row list \<Rightarrow> inventory_row list" where
  "recalc_loop [] balance_qty balance_amt tbl = tbl"
| "recalc_loop (entry # entries) balance_qty balance_amt tbl =
     (let balance_qty' = balance_qty + purchase_quantity entry - sales_quantity entry;
          balance_amt' = balance_amt + purchase_amount entry - sales_amount entry;
          avg_price = (if balance_qty' > 0 then balance_amt' / balance_qty' else 0)
      in recalc_loop entries balance_qty' balance_amt'
           (map (update_balances (ic_id entry) balance_qty' balance_amt' avg_price) tbl))"

definition recalculate_inventory_balances :: "db \<Rightarrow> bool \<times> db" where
  "recalculate_inventory_balances s =
     (let entries = sort_key (\<lambda>r. (ic_date r, ic_id r)) (inventory_card s)
      in if entries = [] then (True, s)
         else (True, s\<lparr>inventory_card := recalc_loop entries 0 0 (inventory_card s)\<rparr>))"

section \<open>Statement builders\<close>










subsection \<open>Ten-column worksheet\<close>

text \<open>\<open>get_journal_entries\<close>: optional filters on journal type and dates, ordered by date.\<close>

definition get_journal_entries :: "db \<Rightarrow> string \<Rightarrow> date option \<Rightarrow> date option \<Rightarrow> journal_entry list" where
  "get_journal_entries s jtype start_date end_date =
     sort_key je_date
       (filter (\<lambda>e. (jtype = [] \<or> journal_type e = jtype)
                   \<and> (case start_date of None \<Rightarrow> True | Some d \<Rightarrow> d \<le> je_date e)
                   \<and> (case end_date of None \<Rightarrow> True | Some d \<Rightarrow> je_date e \<le> d))
          (journal_entries s))"

text \<open>\<open>d.get(k, 0)\<close> on a dict of amounts.\<close>

definition get0 :: "(string \<times> money) list \<Rightarrow> string \<Rightarrow> money" where
  "get0 d k = (case map_of d k of None \<Rightarrow> 0 | Some v \<Rightarrow> v)"

definition adj_add :: "(journal_entry \<Rightarrow> money) \<Rightarrow> journal_entry \<Rightarrow> (string \<times> money) list \<Rightarrow> (string \<times> money) list" where
  "adj_add side entry m =
     AList.update (je_account_code entry) (get0 m (je_account_code entry) + side entry) m"

record worksheet_row =
  ws_code :: string
  ws_name :: string
  ws_normal_balance :: string
  ns_debet :: money
  ns_kredit :: money
  adj_debet :: money
  adj_kredit :: money
  nsa_debet :: money
  nsa_kredit :: money
  lr_debet :: money
  lr_kredit :: money
  neraca_debet :: money
  neraca_kredit :: money

text \<open>The split of a signed balance into a debit and a credit column by normal balance.\<close>

definition debet_column :: "string \<Rightarrow> money \<Rightarrow> money" where
  "debet_column nb bal =
     (if nb = ''debit'' then (if bal > 0 then bal else 0)
      else (if bal < 0 then \<bar>bal\<bar> else 0))"

definition kredit_column :: "string \<Rightarrow> money \<Rightarrow> money" where
  "kredit_column nb bal =
     (if nb = ''debit'' then (if bal < 0 then \<bar>bal\<bar> else 0)
      else (if bal > 0 then bal else 0))"

text \<open>The body of the loop over all accounts: the row of one account, or nothing when the
  account has no balance above the tolerance and no adjustment.\<close>

definition worksheet_row_of ::
  "(string \<times> money) list \<Rightarrow> (string \<times> money) list \<Rightarrow> (string \<times> money) list
     \<Rightarrow> (string \<times> money) list \<Rightarrow> account \<Rightarrow> worksheet_row list" where
  "worksheet_row_of ns_map adj_debit_map adj_kredit_map nsa_map acct =
     (let code = account_code acct;
          nb = normal_balance acct;
          balance_ns = get0 ns_map code;
          adj_d = get0 adj_debit_map code;
          adj_k = get0 adj_kredit_map code;
          balance_nsa = get0 nsa_map code;
          nsa_d = debet_column nb balance_nsa;
          nsa_k = kredit_column nb balance_nsa;
          is_lr = startswith_any code [''4-'', ''5-'', ''6-'']
      in if \<bar>balance_nsa\<bar> > 1 / 100 \<or> adj_d > 0 \<or> adj_k > 0 \<or> \<bar>balance_ns\<bar> > 1 / 100
         then [\<lparr>ws_code = code, ws_name = account_name acct, ws_normal_balance = nb,
                 ns_debet = debet_column nb balance_ns, ns_kredit = kredit_column nb balance_ns,
                 adj_debet = adj_d, adj_kredit = adj_k,
                 nsa_debet = nsa_d, nsa_kredit = nsa_k,
                 lr_debet = (if is_lr then nsa_d else 0),
                 lr_kredit = (if is_lr then nsa_k else 0),
                 neraca_debet = (if is_lr then 0 else nsa_d),
                 neraca_kredit = (if is_lr then 0 else nsa_k)\<rparr>]
         else [])"

text \<open>The worksheet: its rows, the totals row, the net income, and the row of final totals
  after balancing, which the page shows only when the net income is not zero.\<close>

record final_totals =
  ft_lr_debet :: money
  ft_lr_kredit :: money
  ft_neraca_debet :: money
  ft_neraca_kredit :: money

record worksheet =
  worksheet_data :: "worksheet_row list"
  total_lr_debet :: money
  total_lr_kredit :: money
  total_neraca_debet :: money
  total_neraca_kredit :: money
  ws_net_income :: money
  total_akhir :: "final_totals option"

definition akuntan_worksheet :: "db \<Rightarrow> date \<Rightarrow> worksheet" where
  "akuntan_worksheet s end_date =
     (let ns_balances = get_final_balances s (Some end_date) (Some [''GJ'']);
          ns_map = dict_of fb_code amount ns_balances;
          adjustment_journals = get_journal_entries s ''AJ'' None (Some end_date);
          adj_debit_map = fold (adj_add debit) adjustment_journals [];
          adj_kredit_map = fold (adj_add credit) adjustment_journals [];
          nsa_balances = get_final_balances s (Some end_date) (Some [''GJ'', ''AJ'']);
          nsa_map = dict_of fb_code amount nsa_balances;
          rows = concat (map (worksheet_row_of ns_map adj_debit_map adj_kredit_map nsa_map)
                           (get_all_accounts s));
          t_lr_debet = sum_list (map lr_debet rows);
          t_lr_kredit = sum_list (map lr_kredit rows);
          t_neraca_debet = sum_list (map neraca_debet rows);
          t_neraca_kredit = sum_list (map neraca_kredit rows);
          ni = t_lr_kredit - t_lr_debet
      in \<lparr>worksheet_data = rows,
          total_lr_debet = t_lr_debet, total_lr_kredit = t_lr_kredit,
          total_neraca_debet = t_neraca_debet, total_neraca_kredit = t_neraca_kredit,
          ws_net_income = ni,
          total_akhir =
            (if ni \<noteq> 0
             then Some \<lparr>ft_lr_debet = t_lr_debet + (if ni \<ge> 0 then ni else 0),
                        ft_lr_kredit = t_lr_kredit + (if ni < 0 then \<bar>ni\<bar> else 0),
                        ft_neraca_debet = t_neraca_debet + (if ni < 0 then \<bar>ni\<bar> else 0),
                        ft_neraca_kredit = t_neraca_kredit + (if ni \<ge> 0 then ni else 0)\<rparr>
             else None)\<rparr>)"

section \<open>Cash-flow classifier\<close>








definition movement :: "journal_entry \<Rightarrow> money" where
  "movement e = debit e - credit e"









section \<open>Notions used to state and prove the properties\<close>

subsection \<open>Ledger totals\<close>

text \<open>The amount a journal line adds to the balance of an account, by the account's normal
  balance.\<close>

definition signed_amount :: "account \<Rightarrow> journal_entry \<Rightarrow> money" where
  "signed_amount a e =
     (if normal_balance a = ''debit'' then debit e - credit e else credit e - debit e)"

text \<open>The same on floats, as \<open>get_final_balances\<close> computes it.\<close>

definition signed_amount_float :: "account \<Rightarrow> journal_entry \<Rightarrow> money" where
  "signed_amount_float a e =
     (if normal_balance a = ''debit'' then fsub (float (debit e)) (float (credit e))
      else fsub (float (credit e)) (float (debit e)))"

text \<open>A ledger of whole amounts: every beginning balance, debit and credit is a whole
  number. Its magnitude is the sum of the absolute values of all these amounts. On a ledger
  of whole amounts of a magnitude below \<open>2 ^ 53\<close> every sum the application forms is a whole
  number below \<open>2 ^ 53\<close>, which a float holds exactly.\<close>

definition whole :: "rat \<Rightarrow> bool" where
  "whole x = (of_int \<lfloor>x\<rfloor> = x)"

definition whole_amounts :: "db \<Rightarrow> bool" where
  "whole_amounts s =
     ((\<forall>a \<in> set (get_all_accounts s). whole (beginning_balance a))
      \<and> (\<forall>e \<in> set (journal_entries s). whole (debit e) \<and> whole (credit e)))"

definition ledger_magnitude :: "db \<Rightarrow> money" where
  "ledger_magnitude s =
     sum_list (map (\<lambda>a. \<bar>beginning_balance a\<bar>) (get_all_accounts s))
     + sum_list (map (\<lambda>e. \<bar>debit e\<bar> + \<bar>credit e\<bar>) (journal_entries s))"

text \<open>An account code is registered when the registry has an account with that code.\<close>

definition registered :: "db \<Rightarrow> string \<Rightarrow> bool" where
  "registered s code = (code \<in> set (map account_code (get_all_accounts s)))"

text \<open>The journal lines a balance query counts: those that pass its date and journal-type
  filters.\<close>

definition counted_lines :: "db \<Rightarrow> date option \<Rightarrow> string list option \<Rightarrow> journal_entry list" where
  "counted_lines s d jts = filter (\<lambda>e. date_ok d e \<and> type_ok jts e) (journal_entries s)"

definition lines_registered :: "db \<Rightarrow> date option \<Rightarrow> string list option \<Rightarrow> bool" where
  "lines_registered s d jts =
     (\<forall>e \<in> set (counted_lines s d jts). registered s (je_account_code e))"

text \<open>Beginning balance and ledger balance of an account on the debit side: positive for a
  debit balance, negative for a credit balance.\<close>

definition signed_beginning :: "account \<Rightarrow> money" where
  "signed_beginning a =
     (if normal_balance a = ''debit'' then beginning_balance a else - beginning_balance a)"

definition debit_balance :: "db \<Rightarrow> date option \<Rightarrow> string list option \<Rightarrow> account \<Rightarrow> money" where
  "debit_balance s d jts a =
     (if normal_balance a = ''debit'' then get_ledger_balance s (account_code a) d jts
      else - get_ledger_balance s (account_code a) d jts)"

text \<open>By how much the ledger is out of balance: the beginning balances on the debit side
  plus the movement (debit minus credit) of all counted lines. It is 0 for a ledger of balanced entries
  over balanced beginning balances.\<close>

definition imbalance :: "db \<Rightarrow> date option \<Rightarrow> string list option \<Rightarrow> money" where
  "imbalance s d jts =
     sum_list (map signed_beginning (get_all_accounts s))
       + sum_list (map movement (counted_lines s d jts))"

text \<open>The hypotheses of the balance-sheet and worksheet identities as the specification words
  them: the lines of every reference code agree in total debit and credit within 0.01,
  and the beginning balances balance.\<close>

definition ref_balanced :: "db \<Rightarrow> bool" where
  "ref_balanced s =
     (\<forall>ref \<in> set (map ref_code (journal_entries s)).
        \<bar>sum_list (map debit (filter (\<lambda>e. ref_code e = ref) (journal_entries s)))
           - sum_list (map credit (filter (\<lambda>e. ref_code e = ref) (journal_entries s)))\<bar>
          \<le> 1 / 100)"

definition beginning_balanced :: "db \<Rightarrow> bool" where
  "beginning_balanced s = (sum_list (map signed_beginning (get_all_accounts s)) = 0)"

text \<open>The counted lines of every reference code balance exactly.\<close>

definition counted_refs_exact :: "db \<Rightarrow> date option \<Rightarrow> string list option \<Rightarrow> bool" where
  "counted_refs_exact s d jts =
     (\<forall>ref \<in> set (map ref_code (counted_lines s d jts)).
        sum_list (map movement
          (filter (\<lambda>e. ref_code e = ref) (counted_lines s d jts))) = 0)"

subsection \<open>Chart of accounts and reported balances\<close>

text \<open>What the batched aggregator reports for one account.\<close>

definition reported :: "db \<Rightarrow> date option \<Rightarrow> string list option \<Rightarrow> account \<Rightarrow> final_balance list" where
  "reported s d jts a =
     (let b = get_ledger_balance s (account_code a) d jts in
      if \<bar>b\<bar> > 1 / 100 \<or> startswith_any (account_code a) [''3-'', ''4-'', ''5-'', ''6-'']
      then [\<lparr>fb_code = account_code a, fb_name = account_name a,
              fb_normal_balance = normal_balance a, amount = b\<rparr>]
      else [])"



text \<open>No account holds a non-zero balance within the tolerance: \<open>no_residue\<close> for every
  account, \<open>no_hidden_residue\<close> for the accounts that \<open>get_final_balances\<close> leaves out at
  such a balance (those outside the prefixes 3 to 6).\<close>

definition no_residue :: "db \<Rightarrow> date option \<Rightarrow> string list option \<Rightarrow> bool" where
  "no_residue s d jts =
     (\<forall>a \<in> set (get_all_accounts s).
        get_ledger_balance s (account_code a) d jts = 0
        \<or> \<bar>get_ledger_balance s (account_code a) d jts\<bar> > 1 / 100)"




text \<open>Debit minus credit over the income-statement and balance-sheet columns of worksheet
  rows.\<close>

definition column_gap :: "worksheet_row list \<Rightarrow> money" where
  "column_gap rows =
     (sum_list (map lr_debet rows) - sum_list (map lr_kredit rows))
     + (sum_list (map neraca_debet rows) - sum_list (map neraca_kredit rows))"

subsection \<open>Journal posting\<close>

text \<open>The lines an adjustment form submits: the rows 0 to 9 that carry an account code.\<close>

definition submitted_rows :: "aj_row list \<Rightarrow> aj_row list" where
  "submitted_rows rows = filter (\<lambda>row. aj_account_code row \<noteq> []) (take 10 rows)"

text \<open>A journal line, a collected adjustment entry and a form row, each reduced to account
  code, debit, credit and journal type.\<close>

definition posted_line :: "journal_entry \<Rightarrow> string \<times> money \<times> money \<times> string" where
  "posted_line e = (je_account_code e, debit e, credit e, journal_type e)"

definition entry_line :: "aj_entry \<Rightarrow> string \<times> money \<times> money \<times> string" where
  "entry_line e = (ae_account_code e, ae_debit e, ae_credit e, ''AJ'')"

definition row_line :: "aj_row \<Rightarrow> string \<times> money \<times> money \<times> string" where
  "row_line row =
     (aj_account_code row, parse_rupiah (aj_debit row), parse_rupiah (aj_credit row), ''AJ'')"

text \<open>The balance test of the posting routes, on the float totals of a set of lines.\<close>

definition out_of_balance :: "money \<Rightarrow> money \<Rightarrow> bool" where
  "out_of_balance total_debit total_credit =
     (\<bar>fsub total_debit total_credit\<bar> > float (1 / 100))"

subsection \<open>Inventory card\<close>

text \<open>The balance a new row continues: that of the prior row of the product, zero when there
  is none; and the running-balance recurrence of a row against its prior row.\<close>

definition prior_quantity :: "inventory_row option \<Rightarrow> money" where
  "prior_quantity prior = (case prior of None \<Rightarrow> 0 | Some p \<Rightarrow> balance_quantity p)"

definition prior_amount :: "inventory_row option \<Rightarrow> money" where
  "prior_amount prior = (case prior of None \<Rightarrow> 0 | Some p \<Rightarrow> balance_amount p)"

definition running_balance_ok :: "inventory_row option \<Rightarrow> inventory_row \<Rightarrow> bool" where
  "running_balance_ok prior r =
     (balance_quantity r = prior_quantity prior + purchase_quantity r - sales_quantity r
      \<and> balance_amount r = prior_amount prior + purchase_amount r - sales_amount r
      \<and> balance_unit_price r =
            (if balance_quantity r > 0 then balance_amount r / balance_quantity r else 0))"

text \<open>The prior row of a product, as the specification means it: a row of the card that
  carries the product's name and whose id no other row of that product exceeds (ids are
  assigned in increasing order, so it is the row of the product entered last). \<open>no_row\<close>:
  the card has no row of the product.\<close>

definition latest_row :: "db \<Rightarrow> string \<Rightarrow> inventory_row \<Rightarrow> bool" where
  "latest_row s product p =
     (p \<in> set (inventory_card s) \<and> product_name p = product
      \<and> (\<forall>r \<in> set (inventory_card s). product_name r = product \<longrightarrow> ic_id r \<le> ic_id p))"

definition no_row :: "db \<Rightarrow> string \<Rightarrow> bool" where
  "no_row s product = (\<forall>r \<in> set (inventory_card s). product_name r \<noteq> product)"

text \<open>A row with its balance columns blanked: what a recalculation reads of it.\<close>

definition clear_balances :: "inventory_row \<Rightarrow> inventory_row" where
  "clear_balances r = r\<lparr>balance_quantity := 0, balance_amount := 0, balance_unit_price := 0\<rparr>"

text \<open>The recalculation loop as it acts on a single row of the table, and the table a
  recalculation leaves.\<close>

fun recalc_row :: "inventory_row list \<Rightarrow> money \<Rightarrow> money \<Rightarrow> inventory_row \<Rightarrow> inventory_row" where
  "recalc_row [] balance_qty balance_amt r = r"
| "recalc_row (entry # entries) balance_qty balance_amt r =
     (let balance_qty' = balance_qty + purchase_quantity entry - sales_quantity entry;
          balance_amt' = balance_amt + purchase_amount entry - sales_amount entry;
          avg_price = (if balance_qty' > 0 then balance_amt' / balance_qty' else 0)
      in recalc_row entries balance_qty' balance_amt'
           (update_balances (ic_id entry) balance_qty' balance_amt' avg_price r))"

definition recalc_table :: "inventory_row list \<Rightarrow> inventory_row list" where
  "recalc_table tbl = recalc_loop (sort_key (\<lambda>r. (ic_date r, ic_id r)) tbl) 0 0 tbl"

subsection \<open>Cash flow\<close>










section \<open>Example states\<close>

text \<open>A small chart of accounts and ledger on which the theorems below are instantiated:
  a cash sale, an expense paid in cash, a drawing by the owner and a depreciation
  adjustment.\<close>

definition acct :: "string \<Rightarrow> string \<Rightarrow> string \<Rightarrow> money \<Rightarrow> account" where
  "acct code name nb bb =
     \<lparr>account_code = code, account_name = name, normal_balance = nb, beginning_balance = bb\<rparr>"

definition line :: "nat \<Rightarrow> date \<Rightarrow> string \<Rightarrow> money \<Rightarrow> money \<Rightarrow> string \<Rightarrow> string \<Rightarrow> journal_entry" where
  "line i dt code dr cr jtype ref =
     \<lparr>je_id = i, je_date = dt, je_account_code = code, je_account_name = code,
      je_description = ref, debit = dr, credit = cr, journal_type = jtype,
      ref_code = ref, transaction_id = ''''\<rparr>"

definition ex_accounts :: "account list" where
  "ex_accounts =
     [acct ''1-1000'' ''Kas'' ''debit'' 500000,
      acct ''1-2210'' ''Akumulasi Penyusutan'' ''credit'' 0,
      acct ''3-1000'' ''Modal'' ''credit'' 500000,
      acct ''3-1100'' ''Prive'' ''debit'' 0,
      acct ''4-1000'' ''Pendapatan Penjualan'' ''credit'' 0,
      acct ''6-1000'' ''Beban Listrik'' ''debit'' 0]"

definition ex_journal :: "journal_entry list" where
  "ex_journal =
     [line 1 10 ''1-1000'' 100000 0 ''GJ'' ''SL1'',
      line 2 10 ''4-1000'' 0 100000 ''GJ'' ''SL1'',
      line 3 12 ''6-1000'' 20000 0 ''GJ'' ''EX1'',
      line 4 12 ''1-1000'' 0 20000 ''GJ'' ''EX1'',
      line 5 15 ''3-1100'' 5000 0 ''GJ'' ''PR1'',
      line 6 15 ''1-1000'' 0 5000 ''GJ'' ''PR1'',
      line 7 20 ''6-1000'' 1000 0 ''AJ'' ''AJ1'',
      line 8 20 ''1-2210'' 0 1000 ''AJ'' ''AJ1'']"

definition ex_db :: db where
  "ex_db = \<lparr>accounts = ex_accounts, journal_entries = ex_journal, inventory_card = [],
            sales = [], purchases = []\<rparr>"

definition ex_args :: "string \<Rightarrow> string \<Rightarrow> money \<Rightarrow> money \<Rightarrow> money \<Rightarrow> trade_args" where
  "ex_args ty name qty price tot =
     \<lparr>ta_date = 5, ta_item_type = ty, ta_item_name = name, ta_quantity = qty,
      ta_unit_price = price, ta_total_amount = tot, ta_employee_username = ''akuntan'',
      ta_description = '''', ta_ref_code_prefix = ''MANUAL-''\<rparr>"

definition card :: "nat \<Rightarrow> date \<Rightarrow> money \<Rightarrow> money \<Rightarrow> money \<Rightarrow> money \<Rightarrow> money \<Rightarrow> money \<Rightarrow> inventory_row" where
  "card i dt pq pa sq sa bq ba =
     \<lparr>ic_id = i, ic_date = dt, doc_no = ''BL'', ic_description = ''Ikan Mujair'',
      product_name = ''Ikan Mujair'',
      purchase_quantity = pq, purchase_unit_price = (if pq > 0 then pa / pq else 0),
      purchase_amount = pa,
      sales_quantity = sq, sales_unit_price = (if sq > 0 then sa / sq else 0), sales_amount = sa,
      balance_quantity = bq, balance_unit_price = (if bq > 0 then ba / bq else 0),
      balance_amount = ba, employee = ''akuntan''\<rparr>"

definition ex_stock_db :: db where
  "ex_stock_db = ex_db\<lparr>inventory_card :=
      [card 1 1 10 10000 0 0 10 10000, card 2 2 0 0 4 4000 6 6000]\<rparr>"

text \<open>A card of two products: the row entered last belongs to another product than the
  one traded.\<close>

definition card_of :: "string \<Rightarrow> nat \<Rightarrow> money \<Rightarrow> money \<Rightarrow> inventory_row" where
  "card_of product i bq ba = (card i 1 bq ba 0 0 bq ba)\<lparr>product_name := product\<rparr>"

definition ex_two_product_db :: db where
  "ex_two_product_db = ex_db\<lparr>inventory_card :=
      [card_of ''Ikan Mujair'' 1 10 10000, card_of ''Lele'' 2 3 6000]\<rparr>"

text \<open>The same inventory card with its balance columns out of step, as after a manual edit.\<close>

definition ex_edited_db :: db where
  "ex_edited_db = ex_db\<lparr>inventory_card :=
      [card 1 1 10 10000 0 0 0 0, card 2 2 0 0 4 4000 99 1]\<rparr>"

definition ex_purchase :: trade_args where
  "ex_purchase = ex_args ''bibit'' ''Ikan Mujair'' 10 1000 10000"

definition ex_sale :: "money \<Rightarrow> trade_args" where
  "ex_sale qty = ex_args '''' ''Ikan Mujair'' qty 1500 (qty * 1500)"

text \<open>Forms submitted to the two posting routes.\<close>

definition gj :: "string \<Rightarrow> money \<Rightarrow> string \<Rightarrow> money \<Rightarrow> gj_form" where
  "gj dr_code dr cr_code cr =
     \<lparr>gj_date = 25, gj_ref_code = ''GJ'', debit_account = dr_code,
      debit_description = ''Debit'', debit_amount = dr, credit_account = cr_code,
      credit_description = ''Kredit'', credit_amount = cr\<rparr>"

definition aj :: "string \<Rightarrow> money \<Rightarrow> money \<Rightarrow> aj_row" where
  "aj code dr cr =
     \<lparr>aj_account_code = code, aj_description = ''Penyesuaian'', aj_debit = dr, aj_credit = cr\<rparr>"

text \<open>Two cash sales, each entered with a debit one cent above the credit, which the
  posting check admits.\<close>

definition ex_rounding_db :: db where
  "ex_rounding_db =
     \<lparr>accounts = [acct ''1-1000'' ''Kas'' ''debit'' 0,
                  acct ''4-1000'' ''Pendapatan Penjualan'' ''credit'' 0],
      journal_entries =
        [line 1 10 ''1-1000'' (10001 / 100) 0 ''GJ'' ''R1'',
         line 2 10 ''4-1000'' 0 100 ''GJ'' ''R1'',
         line 3 11 ''1-1000'' (10001 / 100) 0 ''GJ'' ''R2'',
         line 4 11 ''4-1000'' 0 100 ''GJ'' ''R2''],
      inventory_card = [], sales = [], purchases = []\<rparr>"

text \<open>One exactly balanced entry that leaves a balance of one cent on each of two asset
  accounts.\<close>

definition ex_residue_db :: db where
  "ex_residue_db =
     \<lparr>accounts = [acct ''1-1100'' ''Piutang Usaha'' ''debit'' 0,
                  acct ''1-1300'' ''Perlengkapan'' ''debit'' 0,
                  acct ''4-1000'' ''Pendapatan Penjualan'' ''credit'' 0],
      journal_entries =
        [line 1 10 ''1-1100'' (1 / 100) 0 ''GJ'' ''R1'',
         line 2 10 ''1-1300'' (1 / 100) 0 ''GJ'' ''R1'',
         line 3 10 ''4-1000'' 0 (2 / 100) ''GJ'' ''R1''],
      inventory_card = [], sales = [], purchases = []\<rparr>"


text \<open>A cash account opened at 0.1 that receives 0.2 and 0.3.\<close>

definition ex_fraction_db :: db where
  "ex_fraction_db =
     \<lparr>accounts = [acct ''1-1000'' ''Kas'' ''debit'' (1 / 10),
                  acct ''4-1000'' ''Pendapatan Penjualan'' ''credit'' 0],
      journal_entries =
        [line 1 10 ''1-1000'' (2 / 10) 0 ''GJ'' ''R1'',
         line 2 10 ''4-1000'' 0 (2 / 10) ''GJ'' ''R1'',
         line 3 11 ''1-1000'' (3 / 10) 0 ''GJ'' ''R2'',
         line 4 11 ''4-1000'' 0 (3 / 10) ''GJ'' ''R2''],
      inventory_card = [], sales = [], purchases = []\<rparr>"

section \<open>Binary floating point: rounding error and exactness on whole numbers\<close>

text \<open>The model of \<open>float\<close> agrees with the interpreter on the literals and sums that matter
  below.\<close>

lemma float_examples:
  "float (1 / 10) = 3602879701896397 / 36028797018963968"
  "float (1 / 100) = 5764607523034235 / 576460752303423488"
  "fadd (float (1 / 10)) (float (2 / 10)) = 1351079888211149 / 4503599627370496"
  "float (2 ^ 53 + 1) = 2 ^ 53"
  by code_simp+

lemma round_half_even_of_int [simp]: "round_half_even (of_int z) = z"
  by (simp add: round_half_even_def)

lemma round_half_even_error: "\<bar>of_int (round_half_even y) - y\<bar> \<le> 1 / 2"
proof -
  have "of_int \<lfloor>y\<rfloor> \<le> y" "y < of_int \<lfloor>y\<rfloor> + 1" by linarith+
  then show ?thesis
    by (auto simp: round_half_even_def Let_def abs_le_iff)
qed

lemma binade_le:
  assumes "0 < x"
  shows "2 powi (binade x) \<le> x"
proof -
  obtain p q where pq: "quotient_of x = (p, q)" by (cases "quotient_of x")
  then have q: "0 < q" and x: "x = of_int p / of_int q"
    by (rule quotient_of_denom_pos, rule quotient_of_div)
  with assms have p: "0 < p" by (simp add: zero_less_divide_iff)
  let ?k = "bitlen p - bitlen q"
  show ?thesis
  proof (cases "2 powi ?k \<le> x")
    case True
    then show ?thesis by (simp add: binade_def pq Let_def)
  next
    case False
    from bitlen_bounds [OF p] have "2 ^ nat (bitlen p - 1) \<le> p" by simp
    then have "(of_int (2 ^ nat (bitlen p - 1)) :: rat) \<le> of_int p" by (simp only: of_int_le_iff)
    moreover from p have "0 < bitlen p"
      using bitlen_eq_zero_iff [of p] bitlen_nonneg [of p] by linarith
    ultimately have lo: "2 powi (bitlen p - 1) \<le> (of_int p :: rat)"
      by (simp add: power_int_def)
    from bitlen_bounds [OF q] have "q < 2 ^ nat (bitlen q)" by simp
    then have "(of_int q :: rat) < of_int (2 ^ nat (bitlen q))" by (simp only: of_int_less_iff)
    moreover have "0 \<le> bitlen q" by (simp add: bitlen_def)
    ultimately have hi: "(of_int q :: rat) \<le> 2 powi (bitlen q)"
      by (simp add: power_int_def)
    have "2 powi (?k - 1) = (2 powi (bitlen p - 1) :: rat) / 2 powi (bitlen q)"
      by (simp add: power_int_diff [symmetric] algebra_simps)
    also have "\<dots> \<le> of_int p / 2 powi (bitlen q)"
      using lo by (simp add: divide_right_mono)
    also have "\<dots> \<le> of_int p / of_int q"
      using hi p q by (simp add: divide_left_mono)
    finally have "2 powi (?k - 1) \<le> x" by (simp only: x)
    moreover have "binade x = ?k - 1" using False by (simp add: binade_def pq Let_def)
    ultimately show ?thesis by simp
  qed
qed

lemma float_error: "\<bar>float x - x\<bar> \<le> \<bar>x\<bar> / 2 ^ 53"
proof (cases "x = 0")
  case True
  then show ?thesis by (simp add: float_def)
next
  case False
  let ?e = "binade \<bar>x\<bar>"
  let ?u = "2 powi (?e - 52) :: rat"
  let ?n = "round_half_even (\<bar>x\<bar> / ?u)"
  have u: "0 < ?u" by simp
  from False have le: "2 powi ?e \<le> \<bar>x\<bar>" by (intro binade_le) simp
  have fx: "float x = sgn x * (of_int ?n * ?u)"
    using False by (simp add: float_def Let_def)
  have "x = sgn x * \<bar>x\<bar>" by (simp add: sgn_mult_abs)
  then have "float x - x = sgn x * (of_int ?n * ?u - \<bar>x\<bar>)"
    by (simp add: fx algebra_simps)
  then have "\<bar>float x - x\<bar> = \<bar>of_int ?n * ?u - \<bar>x\<bar>\<bar>"
    using False by (simp add: abs_mult abs_sgn_eq)
  also have "\<dots> = \<bar>of_int ?n - \<bar>x\<bar> / ?u\<bar> * ?u"
  proof -
    have "of_int ?n * ?u - \<bar>x\<bar> = (of_int ?n - \<bar>x\<bar> / ?u) * ?u"
      using u by (simp add: field_simps)
    then show ?thesis using u by (simp add: abs_mult)
  qed
  also have "\<dots> \<le> 1 / 2 * ?u"
    using round_half_even_error [of "\<bar>x\<bar> / ?u"] u by (intro mult_right_mono) simp_all
  also have "\<dots> = 2 powi ?e / 2 ^ 53"
  proof -
    have "(2::rat) powi (?e - 52) = 2 powi ?e / 2 powi 52" by (simp add: power_int_diff)
    then show ?thesis by simp
  qed
  also have "\<dots> \<le> \<bar>x\<bar> / 2 ^ 53" using le by (simp add: divide_right_mono)
  finally show ?thesis .
qed

lemma float_whole:
  assumes "x \<in> \<int>" "\<bar>x\<bar> < 2 ^ 53"
  shows "float x = x"
proof (cases "x = 0")
  case True
  then show ?thesis by (simp add: float_def)
next
  case False
  let ?e = "binade \<bar>x\<bar>"
  let ?u = "2 powi (?e - 52) :: rat"
  from assms(1) obtain z where z: "\<bar>x\<bar> = of_int z" by (metis Ints_abs Ints_cases)
  from False have "2 powi ?e \<le> \<bar>x\<bar>" by (intro binade_le) simp
  with assms(2) have "(2::rat) powi ?e < 2 powi 53" by simp
  then have e: "?e < 53" by (rule power_int_le_imp_less_exp [rotated]) simp_all
  then have u: "?u = 1 / 2 ^ nat (52 - ?e)"
    by (simp add: power_int_def field_simps)
  let ?m = "z * 2 ^ nat (52 - ?e)"
  from u have y: "\<bar>x\<bar> / ?u = of_int ?m" by (simp add: z)
  have "of_int (round_half_even (\<bar>x\<bar> / ?u)) * ?u = of_int ?m * ?u"
    by (simp only: y round_half_even_of_int)
  also have "\<dots> = of_int ?m * (1 / 2 ^ nat (52 - ?e))" by (simp only: u)
  also have "\<dots> = of_int z" by simp
  also have "\<dots> = \<bar>x\<bar>" by (simp only: z)
  finally have "of_int (round_half_even (\<bar>x\<bar> / ?u)) * ?u = \<bar>x\<bar>" .
  then have "float x = sgn x * \<bar>x\<bar>"
    using False by (simp add: float_def Let_def mult.assoc)
  then show ?thesis by (simp add: sgn_mult_abs)
qed

text \<open>Sums of whole numbers of a total magnitude below \<open>2 ^ 53\<close> are computed exactly.\<close>

lemma whole_iff: "whole x \<longleftrightarrow> x \<in> \<int>"
proof
  assume "whole x"
  then have "x = of_int \<lfloor>x\<rfloor>" unfolding whole_def by (rule sym)
  then show "x \<in> \<int>" by (metis Ints_of_int)
next
  assume "x \<in> \<int>"
  then obtain n where "x = of_int n" by (rule Ints_cases)
  then show "whole x" by (simp add: whole_def)
qed

lemma sum_list_map_nonneg: "(\<And>x. 0 \<le> f x) \<Longrightarrow> 0 \<le> (sum_list (map f xs) :: rat)"
  by (induction xs) simp_all

lemma whole_add: "whole x \<Longrightarrow> whole y \<Longrightarrow> whole (x + y)"
  by (simp add: whole_iff)

lemma whole_diff: "whole x \<Longrightarrow> whole y \<Longrightarrow> whole (x - y)"
  by (simp add: whole_iff)

lemma whole_sum_list: "\<forall>x \<in> set xs. whole (f x) \<Longrightarrow> whole (sum_list (map f xs))"
  by (induction xs) (simp_all add: whole_add, simp add: whole_def)

lemma float_whole_eq: "whole x \<Longrightarrow> \<bar>x\<bar> < 2 ^ 53 \<Longrightarrow> float x = x"
  by (simp add: whole_iff float_whole)

lemma fadd_whole: "whole x \<Longrightarrow> whole y \<Longrightarrow> \<bar>x\<bar> + \<bar>y\<bar> < 2 ^ 53 \<Longrightarrow> fadd x y = x + y"
  unfolding fadd_def by (rule float_whole_eq) (simp add: whole_add, linarith)

lemma fsub_whole: "whole x \<Longrightarrow> whole y \<Longrightarrow> \<bar>x\<bar> + \<bar>y\<bar> < 2 ^ 53 \<Longrightarrow> fsub x y = x - y"
  unfolding fsub_def by (rule float_whole_eq) (simp add: whole_diff, linarith)

lemma sum_list_filter_le:
  "(\<And>x. 0 \<le> f x) \<Longrightarrow> sum_list (map f (filter P xs)) \<le> (sum_list (map f xs) :: rat)"
  by (induction xs) (auto intro: add_mono order_trans [OF _ add_increasing])

lemma member_le_sum_list_nonneg:
  "(\<And>x. 0 \<le> f x) \<Longrightarrow> a \<in> set xs \<Longrightarrow> f a \<le> (sum_list (map f xs) :: rat)"
proof (induction xs)
  case Nil
  then show ?case by simp
next
  case (Cons x xs)
  have "0 \<le> sum_list (map f xs)" using Cons.prems(1) by (rule sum_list_map_nonneg)
  with Cons show ?case by (auto intro: add_increasing add_increasing2)
qed

lemma foldl_fadd_whole:
  "whole acc \<Longrightarrow> \<forall>x \<in> set xs. whole x \<Longrightarrow> \<bar>acc\<bar> + sum_list (map abs xs) < 2 ^ 53 \<Longrightarrow>
   foldl fadd acc xs = acc + sum_list xs"
proof (induction xs arbitrary: acc)
  case Nil
  then show ?case by simp
next
  case (Cons x xs)
  have nn: "0 \<le> sum_list (map abs xs)" by (rule sum_list_map_nonneg) simp
  from Cons.prems nn have 1: "fadd acc x = acc + x"
    by (intro fadd_whole) simp_all
  from Cons.prems have 2: "whole (acc + x)" by (simp add: whole_add)
  from Cons.prems have 3: "\<bar>acc + x\<bar> + sum_list (map abs xs) < 2 ^ 53" by simp
  from Cons.IH [OF 2 _ 3] Cons.prems(2) 1 show ?case by (simp add: add.assoc)
qed

lemma py_sum_whole:
  assumes "\<forall>e \<in> set es. whole (f e)" "sum_list (map (\<lambda>e. \<bar>f e\<bar>) es) < 2 ^ 53"
  shows "py_sum (map (\<lambda>e. float (f e)) es) = sum_list (map f es)"
proof -
  have "float (f e) = f e" if "e \<in> set es" for e
  proof -
    from that have "\<bar>f e\<bar> \<le> sum_list (map (\<lambda>e. \<bar>f e\<bar>) es)"
      by (intro member_le_sum_list_nonneg) simp_all
    with assms that show ?thesis by (intro float_whole_eq) auto
  qed
  then have m: "map (\<lambda>e. float (f e)) es = map f es" by (intro map_cong) simp_all
  have "foldl fadd 0 (map f es) = 0 + sum_list (map f es)"
    using assms by (intro foldl_fadd_whole) (simp_all add: whole_def comp_def)
  then show ?thesis unfolding py_sum_def m by simp
qed

section \<open>Balance aggregation: the batched aggregator agrees with the single-account fold\<close>

lemma map_of_dict_fold_notin:
  "c \<notin> key ` set xs \<Longrightarrow>
   map_of (fold (\<lambda>a d. AList.update (key a) (val a) d) xs d0) c = map_of d0 c"
  by (induction xs arbitrary: d0) (auto simp: update_conv')

lemma map_of_dict_fold_find:
  "distinct (map key xs) \<Longrightarrow> find (\<lambda>a. key a = c) xs = Some b \<Longrightarrow>
   map_of (fold (\<lambda>a d. AList.update (key a) (val a) d) xs d0) c = Some (val b)"
proof (induction xs arbitrary: d0)
  case Nil
  then show ?case by simp
next
  case (Cons a xs)
  show ?case
  proof (cases "key a = c")
    case True
    with Cons.prems have "b = a" and "c \<notin> key ` set xs" by auto
    then show ?thesis using True
      by (simp add: map_of_dict_fold_notin update_conv')
  next
    case False
    with Cons show ?thesis by simp
  qed
qed

lemma map_of_dict_of_find:
  "distinct (map key xs) \<Longrightarrow> find (\<lambda>a. key a = c) xs = Some b \<Longrightarrow>
   map_of (dict_of key val xs) c = Some (val b)"
  unfolding dict_of_def by (rule map_of_dict_fold_find)

lemma map_of_dict_of_None:
  "find (\<lambda>a. key a = c) xs = None \<Longrightarrow> map_of (dict_of key val xs) c = None"
  unfolding dict_of_def
  by (subst map_of_dict_fold_notin) (auto simp: find_None_iff)

lemma distinct_keys_fold_update:
  "distinct (map fst d0) \<Longrightarrow>
   distinct (map fst (fold (\<lambda>a d. AList.update (key a) (val a) d) xs d0))"
  by (induction xs arbitrary: d0) (auto simp: distinct_update)

lemma distinct_dict_of: "distinct (map fst (dict_of key val xs))"
  unfolding dict_of_def by (rule distinct_keys_fold_update) simp

lemma add_entry_distinct:
  "distinct (map fst bal) \<Longrightarrow> distinct (map fst (add_entry amap e bal))"
  by (auto simp: add_entry_def Let_def distinct_update split: option.splits)

lemma fold_add_entry_distinct:
  "distinct (map fst bal) \<Longrightarrow> distinct (map fst (fold (add_entry amap) es bal))"
  by (induction es arbitrary: bal) (auto simp: add_entry_distinct)

lemma add_entry_None:
  "map_of bal c = None \<Longrightarrow> map_of (add_entry amap e bal) c = None"
  by (auto simp: add_entry_def Let_def update_conv' split: option.splits)

lemma add_entry_Some:
  "map_of bal c = Some b \<Longrightarrow> map_of amap c = Some a \<Longrightarrow>
   map_of (add_entry amap e bal) c =
     Some (if je_account_code e = c then b + signed_amount a e else b)"
  by (auto simp: add_entry_def Let_def update_conv' signed_amount_def split: option.splits)

lemma fold_add_entry_None:
  "map_of bal c = None \<Longrightarrow> map_of (fold (add_entry amap) es bal) c = None"
  by (induction es arbitrary: bal) (auto simp: add_entry_None)

lemma fold_add_entry_Some:
  "map_of bal c = Some b \<Longrightarrow> map_of amap c = Some a \<Longrightarrow>
   map_of (fold (add_entry amap) es bal) c =
     Some (b + sum_list (map (signed_amount a) (filter (\<lambda>e. je_account_code e = c) es)))"
proof (induction es arbitrary: bal b)
  case Nil
  then show ?case by simp
next
  case (Cons e es)
  from Cons.prems have
    "map_of (add_entry amap e bal) c =
       Some (if je_account_code e = c then b + signed_amount a e else b)"
    by (rule add_entry_Some)
  from Cons.IH [OF this Cons.prems(2)] show ?case
    by (simp add: add.assoc)
qed

lemma sum_list_signed_amount:
  "sum_list (map (signed_amount a) es) =
     (if normal_balance a = ''debit''
      then sum_list (map debit es) - sum_list (map credit es)
      else sum_list (map credit es) - sum_list (map debit es))"
  by (induction es) (auto simp: signed_amount_def)

lemma final_balances_dict_lookup:
  assumes "distinct (map account_code (get_all_accounts s))"
  shows "map_of (final_balances_dict s d jts) c =
           (case find (\<lambda>acc. account_code acc = c) (get_all_accounts s) of
              None \<Rightarrow> None
            | Some a \<Rightarrow> Some (get_ledger_balance s c d jts))"
proof (cases "find (\<lambda>acc. account_code acc = c) (get_all_accounts s)")
  case None
  then show ?thesis
    by (simp add: final_balances_dict_def Let_def fold_add_entry_None map_of_dict_of_None)
next
  case (Some a)
  have f: "filter (\<lambda>e. date_ok d e \<and> type_ok jts e \<and> je_account_code e = c) (journal_entries s)
         = filter (\<lambda>e. je_account_code e = c \<and> date_ok d e \<and> type_ok jts e) (journal_entries s)"
    by (rule filter_cong) auto
  from Some assms show ?thesis
    by (simp add: final_balances_dict_def get_ledger_balance_def Let_def
        fold_add_entry_Some [where a = a and b = "beginning_balance a"]
        map_of_dict_of_find f sum_list_signed_amount)
qed

lemma final_balances_dict_distinct: "distinct (map fst (final_balances_dict s d jts))"
  by (simp add: final_balances_dict_def Let_def fold_add_entry_distinct distinct_dict_of)

lemma final_data_item_cases:
  "final_data_item am item = [] \<or>
   (\<exists>a::account. final_data_item am item =
      [\<lparr>fb_code = fst item, fb_name = account_name a,
        fb_normal_balance = normal_balance a, amount = snd item\<rparr>])"
  by (auto simp add: final_data_item_def Let_def split: option.split)

lemma final_data_item_mem:
  assumes "r \<in> set (final_data_item am item)"
  shows "item = (fb_code r, amount r)"
proof -
  from final_data_item_cases [of am item] assms
  obtain a :: account where "final_data_item am item =
      [\<lparr>fb_code = fst item, fb_name = account_name a,
        fb_normal_balance = normal_balance a, amount = snd item\<rparr>]"
    by auto
  with assms show ?thesis by (cases item) simp
qed

lemma get_final_balances_mem:
  "r \<in> set (get_final_balances s d jts) \<Longrightarrow>
   (fb_code r, amount r) \<in> set (final_balances_dict s d jts)"
  by (auto simp: get_final_balances_def Let_def dest: final_data_item_mem)

text \<open>In exact arithmetic the batched aggregator and the single-account fold agree on every
  ledger: they add up the same amounts.\<close>

lemma final_balances_agree_exact:
  assumes "distinct (map account_code (get_all_accounts s))"
    and "r \<in> set (get_final_balances s end_date journal_types)"
  shows "amount r = get_ledger_balance s (fb_code r) end_date journal_types"
proof -
  have "map_of (final_balances_dict s end_date journal_types) (fb_code r) = Some (amount r)"
    by (rule map_of_is_SomeI [OF final_balances_dict_distinct get_final_balances_mem [OF assms(2)]])
  with final_balances_dict_lookup [OF assms(1), of end_date journal_types "fb_code r"]
  show ?thesis
    by (auto split: option.splits)
qed

lemma ex_db_distinct: "distinct (map account_code (get_all_accounts ex_db))"
  by code_simp

lemma ex_db_final_balances:
  "get_final_balances ex_db (Some 31) (Some [''GJ'', ''AJ'']) =
     [\<lparr>fb_code = ''1-1000'', fb_name = ''Kas'', fb_normal_balance = ''debit'',
        amount = 575000\<rparr>,
      \<lparr>fb_code = ''1-2210'', fb_name = ''Akumulasi Penyusutan'',
        fb_normal_balance = ''credit'', amount = 1000\<rparr>,
      \<lparr>fb_code = ''3-1000'', fb_name = ''Modal'', fb_normal_balance = ''credit'',
        amount = 500000\<rparr>,
      \<lparr>fb_code = ''3-1100'', fb_name = ''Prive'', fb_normal_balance = ''debit'',
        amount = 5000\<rparr>,
      \<lparr>fb_code = ''4-1000'', fb_name = ''Pendapatan Penjualan'',
        fb_normal_balance = ''credit'', amount = 100000\<rparr>,
      \<lparr>fb_code = ''6-1000'', fb_name = ''Beban Listrik'', fb_normal_balance = ''debit'',
        amount = 21000\<rparr>]"
  by code_simp

subsection \<open>The two aggregators on floats\<close>

text \<open>On floats the two functions round different intermediate sums. On a ledger of whole
  amounts of a magnitude below \<open>2 ^ 53\<close> no operation rounds, and both return the exact
  balance.\<close>

lemma signed_amount_float_whole:
  assumes "whole (debit e)" "whole (credit e)" "\<bar>debit e\<bar> + \<bar>credit e\<bar> < 2 ^ 53"
  shows "signed_amount_float a e = signed_amount a e"
proof -
  from assms have d: "float (debit e) = debit e" and c: "float (credit e) = credit e"
    by (auto intro!: float_whole_eq)
  from assms show ?thesis
    by (simp add: signed_amount_float_def signed_amount_def d c fsub_whole add.commute)
qed

lemma abs_signed_amount: "\<bar>signed_amount a e\<bar> \<le> \<bar>debit e\<bar> + \<bar>credit e\<bar>"
  by (simp add: signed_amount_def abs_if)

lemma whole_signed_amount: "whole (debit e) \<Longrightarrow> whole (credit e) \<Longrightarrow> whole (signed_amount a e)"
  by (simp add: signed_amount_def whole_diff)

lemma fold_fadd_signed_whole:
  "whole b \<Longrightarrow> \<forall>e \<in> set es. whole (debit e) \<and> whole (credit e) \<Longrightarrow>
   \<bar>b\<bar> + sum_list (map (\<lambda>e. \<bar>debit e\<bar> + \<bar>credit e\<bar>) es) < 2 ^ 53 \<Longrightarrow>
   fold (\<lambda>e b. fadd b (signed_amount_float a e)) es b = b + sum_list (map (signed_amount a) es)"
proof (induction es arbitrary: b)
  case Nil
  then show ?case by simp
next
  case (Cons e es)
  have nn: "0 \<le> sum_list (map (\<lambda>e. \<bar>debit e\<bar> + \<bar>credit e\<bar>) es)"
    by (rule sum_list_map_nonneg) simp
  from Cons.prems nn have s: "signed_amount_float a e = signed_amount a e"
    by (intro signed_amount_float_whole) simp_all
  from Cons.prems have w: "whole (signed_amount a e)" by (simp add: whole_signed_amount)
  from Cons.prems nn abs_signed_amount [of a e]
  have 1: "fadd b (signed_amount a e) = b + signed_amount a e"
    by (intro fadd_whole w) simp_all
  from Cons.prems w have 2: "whole (b + signed_amount a e)" by (simp add: whole_add)
  from Cons.prems abs_signed_amount [of a e]
  have 3: "\<bar>b + signed_amount a e\<bar> + sum_list (map (\<lambda>e. \<bar>debit e\<bar> + \<bar>credit e\<bar>) es) < 2 ^ 53"
    by simp
  from Cons.IH [OF 2 _ 3] Cons.prems(2) s 1 show ?case by (simp add: add.assoc)
qed

lemma add_entry_float_distinct:
  "distinct (map fst bal) \<Longrightarrow> distinct (map fst (add_entry_float amap e bal))"
  by (auto simp: add_entry_float_def Let_def distinct_update split: option.splits)

lemma fold_add_entry_float_distinct:
  "distinct (map fst bal) \<Longrightarrow> distinct (map fst (fold (add_entry_float amap) es bal))"
  by (induction es arbitrary: bal) (auto simp: add_entry_float_distinct)

lemma add_entry_float_None:
  "map_of bal c = None \<Longrightarrow> map_of (add_entry_float amap e bal) c = None"
  by (auto simp: add_entry_float_def Let_def update_conv' split: option.splits)

lemma add_entry_float_Some:
  "map_of bal c = Some b \<Longrightarrow> map_of amap c = Some a \<Longrightarrow>
   map_of (add_entry_float amap e bal) c =
     Some (if je_account_code e = c then fadd b (signed_amount_float a e) else b)"
  by (auto simp: add_entry_float_def Let_def update_conv' signed_amount_float_def split: option.splits)

lemma fold_add_entry_float_None:
  "map_of bal c = None \<Longrightarrow> map_of (fold (add_entry_float amap) es bal) c = None"
  by (induction es arbitrary: bal) (auto simp: add_entry_float_None)

lemma fold_add_entry_float_Some:
  "map_of bal c = Some b \<Longrightarrow> map_of amap c = Some a \<Longrightarrow>
   map_of (fold (add_entry_float amap) es bal) c =
     Some (fold (\<lambda>e b. fadd b (signed_amount_float a e)) (filter (\<lambda>e. je_account_code e = c) es) b)"
proof (induction es arbitrary: bal b)
  case Nil
  then show ?case by simp
next
  case (Cons e es)
  from Cons.prems have
    "map_of (add_entry_float amap e bal) c =
       Some (if je_account_code e = c then fadd b (signed_amount_float a e) else b)"
    by (rule add_entry_float_Some)
  from Cons.IH [OF this Cons.prems(2)] show ?case by simp
qed

lemma final_balances_dict_float_distinct:
  "distinct (map fst (final_balances_dict_float s d jts))"
  by (simp add: final_balances_dict_float_def Let_def fold_add_entry_float_distinct distinct_dict_of)

lemma final_data_item_float_cases:
  "final_data_item_float am item = [] \<or>
   (\<exists>a::account. final_data_item_float am item =
      [\<lparr>fb_code = fst item, fb_name = account_name a,
        fb_normal_balance = normal_balance a, amount = snd item\<rparr>])"
  by (auto simp add: final_data_item_float_def Let_def split: option.split)

lemma final_data_item_float_mem:
  assumes "r \<in> set (final_data_item_float am item)"
  shows "item = (fb_code r, amount r)"
proof -
  from final_data_item_float_cases [of am item] assms
  obtain a :: account where "final_data_item_float am item =
      [\<lparr>fb_code = fst item, fb_name = account_name a,
        fb_normal_balance = normal_balance a, amount = snd item\<rparr>]"
    by auto
  with assms show ?thesis by (cases item) simp
qed

lemma get_final_balances_float_mem:
  "r \<in> set (get_final_balances_float s d jts) \<Longrightarrow>
   (fb_code r, amount r) \<in> set (final_balances_dict_float s d jts)"
  by (auto simp: get_final_balances_float_def Let_def dest: final_data_item_float_mem)

text \<open>The magnitude of one account's part of the ledger is within that of the ledger.\<close>

lemma account_magnitude:
  assumes "a \<in> set (get_all_accounts s)"
  shows "\<bar>beginning_balance a\<bar>
           + sum_list (map (\<lambda>e. \<bar>debit e\<bar> + \<bar>credit e\<bar>) (filter P (journal_entries s)))
         \<le> ledger_magnitude s"
  unfolding ledger_magnitude_def
  by (intro add_mono member_le_sum_list_nonneg [where f = "\<lambda>a. \<bar>beginning_balance a\<bar>"]
        sum_list_filter_le assms) simp_all

lemma get_ledger_balance_float_whole:
  assumes "whole_amounts s" "ledger_magnitude s < 2 ^ 53"
  shows "get_ledger_balance_float s c d jts = get_ledger_balance s c d jts"
proof (cases "find (\<lambda>acc. account_code acc = c) (get_all_accounts s)")
  case None
  then show ?thesis by (simp add: get_ledger_balance_float_def get_ledger_balance_def)
next
  case (Some a)
  let ?es = "filter (\<lambda>e. je_account_code e = c \<and> date_ok d e \<and> type_ok jts e) (journal_entries s)"
  let ?D = "sum_list (map debit ?es)" and ?C = "sum_list (map credit ?es)"
  from Some have a: "a \<in> set (get_all_accounts s)" by (auto simp: find_Some_iff)
  from account_magnitude [OF a, of "\<lambda>e. je_account_code e = c \<and> date_ok d e \<and> type_ok jts e"] assms(2)
  have m: "\<bar>beginning_balance a\<bar> + sum_list (map (\<lambda>e. \<bar>debit e\<bar> + \<bar>credit e\<bar>) ?es) < 2 ^ 53"
    by simp
  have split: "sum_list (map (\<lambda>e. \<bar>debit e\<bar> + \<bar>credit e\<bar>) ?es)
      = sum_list (map (\<lambda>e. \<bar>debit e\<bar>) ?es) + sum_list (map (\<lambda>e. \<bar>credit e\<bar>) ?es)"
    by (simp add: sum_list_addf)
  have nd: "0 \<le> sum_list (map (\<lambda>e. \<bar>debit e\<bar>) ?es)" and nc: "0 \<le> sum_list (map (\<lambda>e. \<bar>credit e\<bar>) ?es)"
    by (rule sum_list_map_nonneg, simp)+
  from assms(1) have w: "\<forall>e \<in> set ?es. whole (debit e)" "\<forall>e \<in> set ?es. whole (credit e)"
    and wb: "whole (beginning_balance a)" using a by (auto simp: whole_amounts_def)
  have D: "py_sum (map (\<lambda>e. float (debit e)) ?es) = ?D"
    using w(1) m split nc by (intro py_sum_whole) simp_all
  have C: "py_sum (map (\<lambda>e. float (credit e)) ?es) = ?C"
    using w(2) m split nd by (intro py_sum_whole) simp_all
  have aD: "\<bar>?D\<bar> \<le> sum_list (map (\<lambda>e. \<bar>debit e\<bar>) ?es)"
    using sum_list_abs [of "map debit ?es"] by (simp add: comp_def)
  have aC: "\<bar>?C\<bar> \<le> sum_list (map (\<lambda>e. \<bar>credit e\<bar>) ?es)"
    using sum_list_abs [of "map credit ?es"] by (simp add: comp_def)
  have wD: "whole ?D" and wC: "whole ?C" using w by (simp_all add: whole_sum_list)
  from m split have b0: "\<bar>beginning_balance a\<bar> < 2 ^ 53" using nd nc by simp
  have B: "float (beginning_balance a) = beginning_balance a"
    using wb b0 by (rule float_whole_eq)
  have DC: "fsub ?D ?C = ?D - ?C" "fsub ?C ?D = ?C - ?D"
    using wD wC aD aC m split by (auto intro!: fsub_whole)
  have F: "fadd (beginning_balance a) (?D - ?C) = beginning_balance a + (?D - ?C)"
          "fadd (beginning_balance a) (?C - ?D) = beginning_balance a + (?C - ?D)"
    using wb wD wC aD aC m split by (auto intro!: fadd_whole simp: whole_diff)
  show ?thesis
    by (simp add: get_ledger_balance_float_def get_ledger_balance_def Some Let_def D C B DC F)
qed

lemma final_balances_dict_float_lookup:
  assumes "distinct (map account_code (get_all_accounts s))"
    and "whole_amounts s" "ledger_magnitude s < 2 ^ 53"
  shows "map_of (final_balances_dict_float s d jts) c =
           (case find (\<lambda>acc. account_code acc = c) (get_all_accounts s) of
              None \<Rightarrow> None
            | Some a \<Rightarrow> Some (get_ledger_balance s c d jts))"
proof (cases "find (\<lambda>acc. account_code acc = c) (get_all_accounts s)")
  case None
  then show ?thesis
    by (simp add: final_balances_dict_float_def Let_def fold_add_entry_float_None map_of_dict_of_None)
next
  case (Some a)
  let ?P = "\<lambda>e. date_ok d e \<and> type_ok jts e \<and> je_account_code e = c"
  let ?es = "filter ?P (journal_entries s)"
  from Some have a: "a \<in> set (get_all_accounts s)" by (auto simp: find_Some_iff)
  from account_magnitude [OF a, of ?P] assms(3)
  have m: "\<bar>beginning_balance a\<bar> + sum_list (map (\<lambda>e. \<bar>debit e\<bar> + \<bar>credit e\<bar>) ?es) < 2 ^ 53"
    by simp
  have nn: "0 \<le> sum_list (map (\<lambda>e. \<bar>debit e\<bar> + \<bar>credit e\<bar>) ?es)"
    by (rule sum_list_map_nonneg) simp
  from assms(2) have w: "\<forall>e \<in> set ?es. whole (debit e) \<and> whole (credit e)"
    and wb: "whole (beginning_balance a)" using a by (auto simp: whole_amounts_def)
  have B: "float (beginning_balance a) = beginning_balance a"
    using wb m nn by (intro float_whole_eq) simp_all
  have fl: "fold (\<lambda>e b. fadd b (signed_amount_float a e)) ?es (beginning_balance a)
       = beginning_balance a + sum_list (map (signed_amount a) ?es)"
    using wb w m by (rule fold_fadd_signed_whole)
  have f: "?es = filter (\<lambda>e. je_account_code e = c \<and> date_ok d e \<and> type_ok jts e) (journal_entries s)"
    by (rule filter_cong) auto
  have lk: "map_of (final_balances_dict_float s d jts) c
      = Some (fold (\<lambda>e b. fadd b (signed_amount_float a e)) ?es (float (beginning_balance a)))"
    using Some assms(1)
    by (simp add: final_balances_dict_float_def Let_def
        fold_add_entry_float_Some [where a = a and b = "float (beginning_balance a)"]
        map_of_dict_of_find)
  have "get_ledger_balance s c d jts = beginning_balance a + sum_list (map (signed_amount a) ?es)"
    using Some by (simp add: get_ledger_balance_def Let_def f sum_list_signed_amount)
  with lk fl B Some show ?thesis by simp
qed

text \<open>
  Claim C4, as the code has it. On a ledger whose beginning balances and line amounts are
  whole numbers of a total magnitude below \<open>2 ^ 53\<close>, for every filter (end date, journal
  types) and every account reported by the batched aggregator \<open>get_final_balances\<close>, the
  reported amount is the float that \<open>get_ledger_balance\<close> returns for that account code
  alone with the same filter, and it is the exact balance. The account codes of the
  registry are distinct (the registry refuses a duplicate code).
\<close>

theorem final_balances_agree_with_ledger_balance:
  assumes "distinct (map account_code (get_all_accounts s))"
    and "whole_amounts s" and "ledger_magnitude s < 2 ^ 53"
    and "r \<in> set (get_final_balances_float s end_date journal_types)"
  shows "amount r = get_ledger_balance_float s (fb_code r) end_date journal_types
       \<and> amount r = get_ledger_balance s (fb_code r) end_date journal_types"
proof -
  have "map_of (final_balances_dict_float s end_date journal_types) (fb_code r) = Some (amount r)"
    by (rule map_of_is_SomeI [OF final_balances_dict_float_distinct get_final_balances_float_mem [OF assms(4)]])
  with final_balances_dict_float_lookup [OF assms(1-3), of end_date journal_types "fb_code r"]
  have "amount r = get_ledger_balance s (fb_code r) end_date journal_types"
    by (auto split: option.splits)
  then show ?thesis by (simp add: get_ledger_balance_float_whole [OF assms(2,3)])
qed

lemma ex_db_whole: "whole_amounts ex_db \<and> ledger_magnitude ex_db < 2 ^ 53"
  by code_simp

lemma ex_db_final_balances_float:
  "\<lparr>fb_code = ''6-1000'', fb_name = ''Beban Listrik'', fb_normal_balance = ''debit'',
        amount = 21000\<rparr> \<in> set (get_final_balances_float ex_db (Some 31) (Some [''GJ'', ''AJ'']))"
  by code_simp

theorem final_balances_agree_with_ledger_balance_witness:
  "distinct (map account_code (get_all_accounts ex_db))
   \<and> whole_amounts ex_db \<and> ledger_magnitude ex_db < 2 ^ 53
   \<and> \<lparr>fb_code = ''6-1000'', fb_name = ''Beban Listrik'', fb_normal_balance = ''debit'',
        amount = 21000\<rparr> \<in> set (get_final_balances_float ex_db (Some 31) (Some [''GJ'', ''AJ'']))
   \<and> get_ledger_balance_float ex_db ''6-1000'' (Some 31) (Some [''GJ'', ''AJ'']) = 21000
   \<and> get_ledger_balance ex_db ''6-1000'' (Some 31) (Some [''GJ'', ''AJ'']) = 21000"
proof -
  from ex_db_whole have w: "whole_amounts ex_db" and m: "ledger_magnitude ex_db < 2 ^ 53"
    by simp_all
  from final_balances_agree_with_ledger_balance [OF ex_db_distinct w m ex_db_final_balances_float]
    ex_db_distinct w m ex_db_final_balances_float
  show ?thesis by simp
qed

text \<open>The claim as stated fails on fractional amounts. A cash account opens at 0.1 and is
  debited 0.2 and 0.3: \<open>get_final_balances\<close> adds line by line and reports
  0.6000000000000001, \<open>get_ledger_balance\<close> adds the total 0.5 and returns 0.6.\<close>

theorem final_balances_agree_with_ledger_balance_counterexample:
  "distinct (map account_code (get_all_accounts ex_fraction_db))
   \<and> \<lparr>fb_code = ''1-1000'', fb_name = ''Kas'', fb_normal_balance = ''debit'',
        amount = 1351079888211149 / 2251799813685248\<rparr>
       \<in> set (get_final_balances_float ex_fraction_db None None)
   \<and> get_ledger_balance_float ex_fraction_db ''1-1000'' None None
       = 5404319552844595 / 9007199254740992
   \<and> (1351079888211149 / 2251799813685248 :: rat) \<noteq> 5404319552844595 / 9007199254740992"
  by code_simp

text \<open>
  Claim C10. For an account code that is not in the account registry, \<open>get_ledger_balance\<close>
  returns 0, whatever the end date and the journal-type filter; it reports no failure.
\<close>

theorem ledger_balance_unknown_account:
  "code \<notin> set (map account_code (get_all_accounts s)) \<Longrightarrow>
   get_ledger_balance s code end_date journal_types = 0"
proof -
  assume "code \<notin> set (map account_code (get_all_accounts s))"
  then have "find (\<lambda>acc. account_code acc = code) (get_all_accounts s) = None"
    by (auto simp: find_None_iff)
  then show ?thesis by (simp add: get_ledger_balance_def)
qed

theorem ledger_balance_unknown_account_witness:
  "''9-9999'' \<notin> set (map account_code (get_all_accounts ex_db))
   \<and> get_ledger_balance ex_db ''9-9999'' (Some 31) (Some [''GJ'']) = 0"
proof -
  have h: "''9-9999'' \<notin> set (map account_code (get_all_accounts ex_db))"
    by code_simp
  from ledger_balance_unknown_account [OF h] h show ?thesis by simp
qed

section \<open>Inventory costing ledger: recalculation and running balances\<close>

lemma recalc_loop_rowwise:
  "recalc_loop es q a tbl = map (recalc_row es q a) tbl"
proof (induction es arbitrary: q a tbl)
  case Nil
  show ?case by (induction tbl) simp_all
next
  case (Cons e es)
  then show ?case by (simp add: Let_def comp_def)
qed

lemma clear_update_balances [simp]:
  "clear_balances (update_balances i q a p r) = clear_balances r"
  by (simp add: clear_balances_def update_balances_def)

lemma clear_recalc_row [simp]: "clear_balances (recalc_row es q a r) = clear_balances r"
  by (induction es arbitrary: q a r) (simp_all add: Let_def)

lemma clear_fields:
  assumes "clear_balances r = clear_balances r'"
  shows "ic_id r = ic_id r'" "ic_date r = ic_date r'"
    "purchase_quantity r = purchase_quantity r'" "purchase_amount r = purchase_amount r'"
    "sales_quantity r = sales_quantity r'" "sales_amount r = sales_amount r'"
proof -
  have "ic_id (clear_balances r) = ic_id (clear_balances r')" using assms by simp
  then show "ic_id r = ic_id r'" by (simp add: clear_balances_def)
  have "ic_date (clear_balances r) = ic_date (clear_balances r')" using assms by simp
  then show "ic_date r = ic_date r'" by (simp add: clear_balances_def)
  have "purchase_quantity (clear_balances r) = purchase_quantity (clear_balances r')" using assms by simp
  then show "purchase_quantity r = purchase_quantity r'" by (simp add: clear_balances_def)
  have "purchase_amount (clear_balances r) = purchase_amount (clear_balances r')" using assms by simp
  then show "purchase_amount r = purchase_amount r'" by (simp add: clear_balances_def)
  have "sales_quantity (clear_balances r) = sales_quantity (clear_balances r')" using assms by simp
  then show "sales_quantity r = sales_quantity r'" by (simp add: clear_balances_def)
  have "sales_amount (clear_balances r) = sales_amount (clear_balances r')" using assms by simp
  then show "sales_amount r = sales_amount r'" by (simp add: clear_balances_def)
qed

lemma clear_eq_update:
  assumes "clear_balances r = clear_balances r'"
  shows "update_balances (ic_id r) q a p r = update_balances (ic_id r) q a p r'"
proof -
  have "r\<lparr>balance_quantity := q, balance_amount := a, balance_unit_price := p\<rparr>
        = (clear_balances r)\<lparr>balance_quantity := q, balance_amount := a, balance_unit_price := p\<rparr>"
    by (simp add: clear_balances_def)
  also have "\<dots> = (clear_balances r')\<lparr>balance_quantity := q, balance_amount := a, balance_unit_price := p\<rparr>"
    using assms by simp
  also have "\<dots> = r'\<lparr>balance_quantity := q, balance_amount := a, balance_unit_price := p\<rparr>"
    by (simp add: clear_balances_def)
  finally show ?thesis using clear_fields(1) [OF assms]
    by (simp add: update_balances_def)
qed

text \<open>Rows that agree outside the balance columns are recalculated to the same row, once
  an update reaches them.\<close>

lemma recalc_row_clear_eq:
  "clear_balances r = clear_balances r' \<Longrightarrow> ic_id r \<in> ic_id ` set es \<Longrightarrow>
   recalc_row es q a r = recalc_row es q a r'"
proof (induction es arbitrary: q a r r')
  case Nil
  then show ?case by simp
next
  case (Cons e es)
  let ?q = "q + purchase_quantity e - sales_quantity e"
  let ?a = "a + purchase_amount e - sales_amount e"
  let ?p = "if ?q > 0 then ?a / ?q else 0"
  show ?case
  proof (cases "ic_id e = ic_id r")
    case True
    with clear_eq_update [OF Cons.prems(1), of ?q ?a ?p]
    have "update_balances (ic_id e) ?q ?a ?p r = update_balances (ic_id e) ?q ?a ?p r'"
      by simp
    then show ?thesis by (simp add: Let_def)
  next
    case False
    with clear_fields(1) [OF Cons.prems(1)]
    have u: "update_balances (ic_id e) ?q ?a ?p r = r"
            "update_balances (ic_id e) ?q ?a ?p r' = r'"
      by (simp_all add: update_balances_def)
    from False Cons.prems(2) have "ic_id r \<in> ic_id ` set es" by auto
    from Cons.IH [OF Cons.prems(1) this] u show ?thesis by (simp add: Let_def)
  qed
qed

text \<open>The updates a recalculation makes depend on the rows only outside the balance
  columns.\<close>

lemma recalc_row_entries_cong:
  "map clear_balances es = map clear_balances es' \<Longrightarrow>
   recalc_row es q a r = recalc_row es' q a r"
proof (induction es arbitrary: es' q a r)
  case Nil
  then show ?case by simp
next
  case (Cons e es)
  from Cons.prems obtain e' es'' where es': "es' = e' # es''"
    and e: "clear_balances e = clear_balances e'"
    and rest: "map clear_balances es = map clear_balances es''"
    by (cases es') auto
  from clear_fields [OF e] Cons.IH [OF rest] show ?case
    by (simp add: es' Let_def)
qed

lemma insort_key_map_cong:
  assumes "\<And>a. k (f a) = k a"
  shows "map f (insort_key k a xs) = insort_key k (f a) (map f xs)"
  by (induction xs) (simp_all add: assms)

lemma sort_key_map_cong:
  assumes "\<And>a. k (f a) = k a"
  shows "map f (sort_key k xs) = sort_key k (map f xs)"
  using assms by (induction xs) (simp_all add: insort_key_map_cong)

lemma sort_key_clear:
  "map clear_balances (sort_key (\<lambda>r. (ic_date r, ic_id r)) tbl)
     = sort_key (\<lambda>r. (ic_date r, ic_id r)) (map clear_balances tbl)"
  by (rule sort_key_map_cong) (simp add: clear_balances_def)

lemma recalc_table_idem: "recalc_table (recalc_table tbl) = recalc_table tbl"
proof -
  let ?k = "\<lambda>r. (ic_date r, ic_id r)"
  let ?E = "sort_key ?k tbl"
  let ?t1 = "map (recalc_row ?E 0 0) tbl"
  have t1: "recalc_table tbl = ?t1"
    by (simp add: recalc_table_def recalc_loop_rowwise)
  have c: "map clear_balances ?t1 = map clear_balances tbl"
    by (simp add: comp_def)
  have "map clear_balances (sort_key ?k ?t1) = map clear_balances ?E"
    by (simp only: sort_key_clear c)
  then have e: "recalc_row (sort_key ?k ?t1) 0 0 r = recalc_row ?E 0 0 r" for r
    by (rule recalc_row_entries_cong)
  have "recalc_table ?t1 = map (recalc_row ?E 0 0) ?t1"
    by (simp add: recalc_table_def recalc_loop_rowwise e)
  also have "\<dots> = ?t1"
  proof -
    have "recalc_row ?E 0 0 (recalc_row ?E 0 0 r) = recalc_row ?E 0 0 r" if "r \<in> set tbl" for r
    proof -
      from that have "ic_id (recalc_row ?E 0 0 r) \<in> ic_id ` set ?E"
        using clear_fields(1) [of "recalc_row ?E 0 0 r" r] by simp
      then show ?thesis
        by (intro recalc_row_clear_eq) simp_all
    qed
    then show ?thesis by simp
  qed
  finally show ?thesis by (simp add: t1)
qed

text \<open>
  Claim C8. Whatever the inventory card holds, running \<open>recalculate_inventory_balances\<close>
  twice leaves the state the first run produced: the second run writes the same
  \<open>balance_quantity\<close>, \<open>balance_amount\<close> and \<open>balance_unit_price\<close> into every row.
\<close>

theorem recalculate_twice_is_idempotent:
  "snd (recalculate_inventory_balances (snd (recalculate_inventory_balances s)))
     = snd (recalculate_inventory_balances s)"
proof (cases "inventory_card s = []")
  case True
  then show ?thesis by (simp add: recalculate_inventory_balances_def)
next
  case False
  then have 1: "snd (recalculate_inventory_balances s)
                  = s\<lparr>inventory_card := recalc_table (inventory_card s)\<rparr>"
    by (simp add: recalculate_inventory_balances_def recalc_table_def Let_def)
  have "length (recalc_table (inventory_card s)) = length (inventory_card s)"
    by (simp add: recalc_table_def recalc_loop_rowwise)
  with False have "recalc_table (inventory_card s) \<noteq> []" by auto
  then have "snd (recalculate_inventory_balances (s\<lparr>inventory_card := recalc_table (inventory_card s)\<rparr>))
      = s\<lparr>inventory_card := recalc_table (recalc_table (inventory_card s))\<rparr>"
    by (simp add: recalculate_inventory_balances_def recalc_table_def Let_def)
  with 1 show ?thesis by (simp add: recalc_table_idem)
qed

theorem recalculate_twice_is_idempotent_witness:
  "snd (recalculate_inventory_balances (snd (recalculate_inventory_balances ex_edited_db)))
     = snd (recalculate_inventory_balances ex_edited_db)
   \<and> map (\<lambda>r. (balance_quantity r, balance_amount r, balance_unit_price r))
         (inventory_card (snd (recalculate_inventory_balances ex_edited_db)))
       = [(10, 10000, 1000), (6, 6000, 1000)]"
proof -
  have "map (\<lambda>r. (balance_quantity r, balance_amount r, balance_unit_price r))
         (inventory_card (snd (recalculate_inventory_balances ex_edited_db)))
       = [(10, 10000, 1000), (6, 6000, 1000)]"
    by code_simp
  with recalculate_twice_is_idempotent [of ex_edited_db] show ?thesis by simp
qed

lemma get_last_sales_update [simp]:
  "get_last_inventory_entry (s\<lparr>sales := xs\<rparr>) p = get_last_inventory_entry s p"
  by (simp add: get_last_inventory_entry_def)

lemma get_last_purchases_update [simp]:
  "get_last_inventory_entry (s\<lparr>purchases := xs\<rparr>) p = get_last_inventory_entry s p"
  by (simp add: get_last_inventory_entry_def)

lemma get_last_journal_update [simp]:
  "get_last_inventory_entry (s\<lparr>journal_entries := xs\<rparr>) p = get_last_inventory_entry s p"
  by (simp add: get_last_inventory_entry_def)

lemma card_row_running_balance:
  "running_balance_ok prior
     (card_row i a ref d pq pu pa sq su sa
        (prior_quantity prior + pq - sq) (prior_amount prior + pa - sa))"
  by (simp add: running_balance_ok_def card_row_def)

lemma process_sale_insufficient:
  assumes "get_last_inventory_entry s (ta_item_name a) = Some last_entry"
    and "ta_quantity a > balance_quantity last_entry"
  shows "fst (process_sale s now a) = Inl InsufficientStock
         \<and> journal_entries (snd (process_sale s now a)) = journal_entries s
         \<and> inventory_card (snd (process_sale s now a)) = inventory_card s
         \<and> length (sales (snd (process_sale s now a))) = Suc (length (sales s))"
  using assms by (simp add: process_sale_def Let_def)

text \<open>The lookup \<open>get_last_inventory_entry\<close> returns the prior row of the product: a row of
  the card with the product's name and the highest id among the rows of that product, and
  nothing exactly when the card has no row of the product. With distinct ids that row is
  unique. A row inserted gets an id above every id of the table.\<close>

lemma sorted_last_max:
  assumes "sorted (map f ys)" "y \<in> set ys"
  shows "f y \<le> f (last ys)"
proof -
  from assms(2) have ne: "ys \<noteq> []" by auto
  then have ys: "ys = butlast ys @ [last ys]" by simp
  show ?thesis
  proof (cases "y = last ys")
    case True
    then show ?thesis by simp
  next
    case False
    with assms(2) ys have "y \<in> set (butlast ys)"
      by (metis Un_iff empty_iff empty_set set_ConsD set_append)
    moreover from assms(1) ys have "sorted (map f (butlast ys) @ [f (last ys)])"
      by (metis list.simps(8) list.simps(9) map_append)
    ultimately show ?thesis by (auto simp: sorted_append)
  qed
qed

lemma get_last_inventory_entry_None:
  "get_last_inventory_entry s product = None \<longleftrightarrow> no_row s product"
proof -
  let ?xs = "filter (\<lambda>r. product_name r = product) (inventory_card s)"
  have "length (rev (sort_key ic_id ?xs)) = length ?xs" by simp
  then have "rev (sort_key ic_id ?xs) = [] \<longleftrightarrow> ?xs = []"
    by (metis length_0_conv)
  moreover have "?xs = [] \<longleftrightarrow> no_row s product"
    by (auto simp: no_row_def filter_empty_conv)
  ultimately have "rev (sort_key ic_id ?xs) = [] \<longleftrightarrow> no_row s product" by (rule trans)
  then show ?thesis
    unfolding get_last_inventory_entry_def
    by (cases "rev (sort_key ic_id ?xs)") simp_all
qed

lemma get_last_inventory_entry_Some:
  assumes "get_last_inventory_entry s product = Some p"
  shows "latest_row s product p"
proof -
  let ?xs = "filter (\<lambda>r. product_name r = product) (inventory_card s)"
  let ?ys = "sort_key ic_id ?xs"
  from assms obtain zs where "rev ?ys = p # zs"
    unfolding get_last_inventory_entry_def by (cases "rev ?ys") simp_all
  then have "?ys = rev (p # zs)" by (metis rev_rev_ident)
  then have ys: "?ys = rev zs @ [p]" by simp
  then have ne: "?ys \<noteq> []" and pl: "last ?ys = p" by simp_all
  have st: "set ?ys = set ?xs" by simp
  have "p \<in> set ?ys" by (subst ys) simp
  then have px: "p \<in> set ?xs" by (simp only: st)
  have le: "ic_id r \<le> ic_id p" if "r \<in> set ?xs" for r
  proof -
    from that have "r \<in> set ?ys" by (simp only: st)
    moreover have "sorted (map ic_id ?ys)" by (rule sorted_sort_key)
    ultimately have "ic_id r \<le> ic_id (last ?ys)" by (rule sorted_last_max [rotated])
    then show ?thesis by (simp only: pl)
  qed
  from px have "p \<in> set (inventory_card s)" "product_name p = product" by simp_all
  moreover from le have "\<forall>r \<in> set (inventory_card s). product_name r = product \<longrightarrow> ic_id r \<le> ic_id p"
    by simp
  ultimately show ?thesis by (simp add: latest_row_def)
qed

lemma latest_row_unique:
  assumes "distinct (map ic_id (inventory_card s))"
    and "latest_row s product p" "latest_row s product q"
  shows "p = q"
proof -
  from assms(2,3) have "ic_id p = ic_id q" "p \<in> set (inventory_card s)" "q \<in> set (inventory_card s)"
    by (auto simp: latest_row_def intro: antisym)
  with assms(1) show ?thesis by (meson distinct_map inj_on_eq_iff)
qed

lemma fold_max_ge: "x \<in> set xs \<Longrightarrow> x \<le> fold max xs (m::nat)"
proof (induction xs arbitrary: m)
  case Nil then show ?case by simp
next
  case (Cons a xs)
  have mono: "m \<le> fold max ys m" for ys :: "nat list" and m
    by (induction ys arbitrary: m) (auto intro: order_trans [OF max.cobounded2])
  from Cons show ?case
  proof (cases "x = a")
    case True
    then show ?thesis using mono [of "max a m" xs] by simp
  next
    case False
    with Cons show ?thesis by simp
  qed
qed

lemma fresh_id_above: "r \<in> set rows \<Longrightarrow> key r < fresh_id (map key rows)"
  using fold_max_ge [of "key r" "map key rows" 0] by (simp add: fresh_id_def less_Suc_eq_le)


text \<open>
  Claim C7. A row appended to the inventory card by \<open>process_purchase\<close> or \<open>process_sale\<close>
  carries the name of the product traded and an id above every id of the card, and it
  continues the running balance of the prior row of the same product, the row of that
  product with the highest id (zero balances when the card has no row of the product):
  balance quantity and amount are the prior ones plus the purchase minus the sale, and the
  balance unit price is amount over quantity when the quantity is positive, else 0. A sale
  succeeds only when the prior row holds at least the quantity sold; it is costed at the
  prior row's balance unit price, its amount being the quantity times that price. A
  purchase of another item type, and a sale that fails, append no row.
\<close>

theorem inventory_rows_follow_running_balance:
  "(ta_item_type a = ''bibit'' \<longrightarrow>
      (\<exists>r. inventory_card (snd (process_purchase s now a)) = inventory_card s @ [r]
           \<and> product_name r = ta_item_name a
           \<and> (\<forall>r' \<in> set (inventory_card s). ic_id r' < ic_id r)
           \<and> ((no_row s (ta_item_name a) \<and> running_balance_ok None r)
              \<or> (\<exists>prior. latest_row s (ta_item_name a) prior
                    \<and> running_balance_ok (Some prior) r))
           \<and> purchase_quantity r = ta_quantity a \<and> purchase_amount r = ta_total_amount a
           \<and> sales_quantity r = 0 \<and> sales_amount r = 0))
   \<and> (ta_item_type a \<noteq> ''bibit'' \<longrightarrow>
        inventory_card (snd (process_purchase s now a)) = inventory_card s)
   \<and> (fst (process_sale s now a) = Inr True \<longrightarrow>
      (\<exists>r prior. latest_row s (ta_item_name a) prior
           \<and> ta_quantity a \<le> balance_quantity prior
           \<and> inventory_card (snd (process_sale s now a)) = inventory_card s @ [r]
           \<and> product_name r = ta_item_name a
           \<and> (\<forall>r' \<in> set (inventory_card s). ic_id r' < ic_id r)
           \<and> running_balance_ok (Some prior) r
           \<and> purchase_quantity r = 0 \<and> purchase_amount r = 0
           \<and> sales_quantity r = ta_quantity a
           \<and> sales_unit_price r = balance_unit_price prior
           \<and> sales_amount r = ta_quantity a * balance_unit_price prior))
   \<and> (fst (process_sale s now a) \<noteq> Inr True \<longrightarrow>
        inventory_card (snd (process_sale s now a)) = inventory_card s)"
proof (intro conjI impI)
  assume b: "ta_item_type a = ''bibit''"
  let ?prior = "get_last_inventory_entry s (ta_item_name a)"
  let ?i = "fresh_id (map ic_id (inventory_card s))"
  obtain r where r: "inventory_card (snd (process_purchase s now a)) = inventory_card s @ [r]"
    and r_def: "\<exists>ref d. r = card_row ?i a ref d (ta_quantity a) (ta_unit_price a) (ta_total_amount a) 0 0 0
          (prior_quantity ?prior + ta_quantity a - 0) (prior_amount ?prior + ta_total_amount a - 0)"
    using b by (simp add: process_purchase_def Let_def account_mapping_def prior_quantity_def prior_amount_def) blast
  from r_def obtain ref d where rr: "r = card_row ?i a ref d (ta_quantity a) (ta_unit_price a) (ta_total_amount a) 0 0 0
          (prior_quantity ?prior + ta_quantity a - 0) (prior_amount ?prior + ta_total_amount a - 0)"
    by blast
  have ok: "running_balance_ok ?prior r" unfolding rr by (rule card_row_running_balance)
  have pr: "(no_row s (ta_item_name a) \<and> running_balance_ok None r)
              \<or> (\<exists>prior. latest_row s (ta_item_name a) prior \<and> running_balance_ok (Some prior) r)"
  proof (cases ?prior)
    case None
    with ok get_last_inventory_entry_None [of s "ta_item_name a"] show ?thesis by simp
  next
    case (Some p)
    with ok get_last_inventory_entry_Some [of s "ta_item_name a" p] show ?thesis by auto
  qed
  have f: "purchase_quantity r = ta_quantity a \<and> purchase_amount r = ta_total_amount a
           \<and> sales_quantity r = 0 \<and> sales_amount r = 0 \<and> product_name r = ta_item_name a
           \<and> ic_id r = ?i"
    by (simp add: rr card_row_def)
  have i: "\<forall>r' \<in> set (inventory_card s). ic_id r' < ic_id r"
    using f by (simp add: fresh_id_above)
  show "\<exists>r. inventory_card (snd (process_purchase s now a)) = inventory_card s @ [r]
           \<and> product_name r = ta_item_name a
           \<and> (\<forall>r' \<in> set (inventory_card s). ic_id r' < ic_id r)
           \<and> ((no_row s (ta_item_name a) \<and> running_balance_ok None r)
              \<or> (\<exists>prior. latest_row s (ta_item_name a) prior
                    \<and> running_balance_ok (Some prior) r))
           \<and> purchase_quantity r = ta_quantity a \<and> purchase_amount r = ta_total_amount a
           \<and> sales_quantity r = 0 \<and> sales_amount r = 0"
    using r pr f i by blast
next
  assume "ta_item_type a \<noteq> ''bibit''"
  then show "inventory_card (snd (process_purchase s now a)) = inventory_card s"
    by (simp add: process_purchase_def Let_def split: option.split)
next
  assume ok: "fst (process_sale s now a) = Inr True"
  then obtain prior where p: "get_last_inventory_entry s (ta_item_name a) = Some prior"
    by (cases "get_last_inventory_entry s (ta_item_name a)") (simp_all add: process_sale_def Let_def)
  with ok have q: "\<not> balance_quantity prior < ta_quantity a"
    by (cases "balance_quantity prior < ta_quantity a") (simp_all add: process_sale_def Let_def)
  let ?sa = "ta_quantity a * balance_unit_price prior"
  let ?i = "fresh_id (map ic_id (inventory_card s))"
  from p q obtain ref d where
    r: "inventory_card (snd (process_sale s now a)) = inventory_card s @
         [card_row ?i a ref d 0 0 0 (ta_quantity a) (balance_unit_price prior) ?sa
            (prior_quantity (Some prior) + 0 - ta_quantity a) (prior_amount (Some prior) + 0 - ?sa)]"
    by (simp add: process_sale_def Let_def prior_quantity_def prior_amount_def)
  let ?r = "card_row ?i a ref d 0 0 0 (ta_quantity a) (balance_unit_price prior) ?sa
            (prior_quantity (Some prior) + 0 - ta_quantity a) (prior_amount (Some prior) + 0 - ?sa)"
  have "running_balance_ok (Some prior) ?r" by (rule card_row_running_balance)
  moreover have "purchase_quantity ?r = 0 \<and> purchase_amount ?r = 0
           \<and> sales_quantity ?r = ta_quantity a
           \<and> sales_unit_price ?r = balance_unit_price prior
           \<and> sales_amount ?r = ta_quantity a * balance_unit_price prior
           \<and> product_name ?r = ta_item_name a"
    by (simp add: card_row_def)
  moreover have "\<forall>r' \<in> set (inventory_card s). ic_id r' < ic_id ?r"
    by (simp add: card_row_def fresh_id_above)
  moreover from p have "latest_row s (ta_item_name a) prior"
    by (rule get_last_inventory_entry_Some)
  moreover from q have "ta_quantity a \<le> balance_quantity prior" by simp
  ultimately show "\<exists>r prior. latest_row s (ta_item_name a) prior
           \<and> ta_quantity a \<le> balance_quantity prior
           \<and> inventory_card (snd (process_sale s now a)) = inventory_card s @ [r]
           \<and> product_name r = ta_item_name a
           \<and> (\<forall>r' \<in> set (inventory_card s). ic_id r' < ic_id r)
           \<and> running_balance_ok (Some prior) r
           \<and> purchase_quantity r = 0 \<and> purchase_amount r = 0
           \<and> sales_quantity r = ta_quantity a
           \<and> sales_unit_price r = balance_unit_price prior
           \<and> sales_amount r = ta_quantity a * balance_unit_price prior"
    using r by blast
next
  assume "fst (process_sale s now a) \<noteq> Inr True"
  then show "inventory_card (snd (process_sale s now a)) = inventory_card s"
    by (cases "get_last_inventory_entry s (ta_item_name a)")
       (simp_all add: process_sale_def Let_def split: if_split_asm)
qed

lemma ex_two_product_latest:
  "latest_row ex_two_product_db ''Ikan Mujair'' p \<Longrightarrow> p = card_of ''Ikan Mujair'' 1 10 10000"
  by (auto simp: latest_row_def ex_two_product_db_def card_of_def card_def)

lemma ex_two_product_rows: "\<not> no_row ex_two_product_db ''Ikan Mujair''"
  by code_simp

theorem inventory_rows_follow_running_balance_witness:
  "ta_item_type ex_purchase = ''bibit''
   \<and> (\<exists>r. inventory_card (snd (process_purchase ex_two_product_db ''0511'' ex_purchase))
              = inventory_card ex_two_product_db @ [r]
          \<and> product_name r = ''Ikan Mujair''
          \<and> balance_quantity r = 20 \<and> balance_amount r = 20000 \<and> balance_unit_price r = 1000)
   \<and> fst (process_sale ex_two_product_db ''2026'' (ex_sale 4)) = Inr True
   \<and> (\<exists>r. inventory_card (snd (process_sale ex_two_product_db ''2026'' (ex_sale 4)))
              = inventory_card ex_two_product_db @ [r]
          \<and> product_name r = ''Ikan Mujair''
          \<and> sales_unit_price r = 1000 \<and> sales_amount r = 4000
          \<and> balance_quantity r = 6 \<and> balance_amount r = 6000 \<and> balance_unit_price r = 1000)"
proof -
  let ?p = "card_of ''Ikan Mujair'' 1 10 10000"
  have h1: "ta_item_type ex_purchase = ''bibit''"
    by (simp add: ex_purchase_def ex_args_def)
  have h2: "fst (process_sale ex_two_product_db ''2026'' (ex_sale 4)) = Inr True"
    by code_simp
  have n: "ta_item_name ex_purchase = ''Ikan Mujair''" "ta_item_name (ex_sale 4) = ''Ikan Mujair''"
    "ta_quantity ex_purchase = 10" "ta_total_amount ex_purchase = 10000"
    "ta_quantity (ex_sale 4) = 4"
    by (simp_all add: ex_purchase_def ex_sale_def ex_args_def)
  have b: "balance_quantity ?p = 10" "balance_amount ?p = 10000" "balance_unit_price ?p = 1000"
    by (simp_all add: card_of_def card_def)
  from inventory_rows_follow_running_balance [of ex_purchase ex_two_product_db "''0511''"] h1
  obtain r where r: "inventory_card (snd (process_purchase ex_two_product_db ''0511'' ex_purchase))
              = inventory_card ex_two_product_db @ [r]"
      "product_name r = ''Ikan Mujair''"
      "(no_row ex_two_product_db ''Ikan Mujair'' \<and> running_balance_ok None r)
        \<or> (\<exists>prior. latest_row ex_two_product_db ''Ikan Mujair'' prior
              \<and> running_balance_ok (Some prior) r)"
      "purchase_quantity r = 10" "purchase_amount r = 10000"
      "sales_quantity r = 0" "sales_amount r = 0"
    unfolding n by blast
  from r(3) ex_two_product_rows ex_two_product_latest have "running_balance_ok (Some ?p) r"
    by blast
  with r(4-7) b have
    "balance_quantity r = 20 \<and> balance_amount r = 20000 \<and> balance_unit_price r = 1000"
    by (simp add: running_balance_ok_def prior_quantity_def prior_amount_def)
  with r(1,2) have p: "\<exists>r. inventory_card (snd (process_purchase ex_two_product_db ''0511'' ex_purchase))
              = inventory_card ex_two_product_db @ [r]
          \<and> product_name r = ''Ikan Mujair''
          \<and> balance_quantity r = 20 \<and> balance_amount r = 20000 \<and> balance_unit_price r = 1000"
    by blast
  from inventory_rows_follow_running_balance [of "ex_sale 4" ex_two_product_db "''2026''"] h2
  obtain r' prior where r': "latest_row ex_two_product_db ''Ikan Mujair'' prior"
      "inventory_card (snd (process_sale ex_two_product_db ''2026'' (ex_sale 4)))
              = inventory_card ex_two_product_db @ [r']"
      "product_name r' = ''Ikan Mujair''"
      "running_balance_ok (Some prior) r'"
      "purchase_quantity r' = 0" "purchase_amount r' = 0" "sales_quantity r' = 4"
      "sales_unit_price r' = balance_unit_price prior"
      "sales_amount r' = 4 * balance_unit_price prior"
    unfolding n by blast
  from r'(1) have "prior = ?p" by (rule ex_two_product_latest)
  with r'(4-9) b have
    "sales_unit_price r' = 1000 \<and> sales_amount r' = 4000
     \<and> balance_quantity r' = 6 \<and> balance_amount r' = 6000 \<and> balance_unit_price r' = 1000"
    by (simp add: running_balance_ok_def prior_quantity_def prior_amount_def)
  with r'(2,3) have q: "\<exists>r. inventory_card (snd (process_sale ex_two_product_db ''2026'' (ex_sale 4)))
              = inventory_card ex_two_product_db @ [r]
          \<and> product_name r = ''Ikan Mujair''
          \<and> sales_unit_price r = 1000 \<and> sales_amount r = 4000
          \<and> balance_quantity r = 6 \<and> balance_amount r = 6000 \<and> balance_unit_price r = 1000"
    by blast
  from h1 p h2 q show ?thesis by blast
qed

text \<open>
  Claim C5. A sale of more than the product's balance quantity is refused with
  \<open>InsufficientStock\<close> and writes no journal line and no inventory-card row; the row of
  \<open>sales\<close>, inserted before the stock is checked, stays in the table. Here the balance
  quantity is 6 and the sale asks for 20.
\<close>

theorem process_sale_insufficient_stock_keeps_sales_row:
  "map_option balance_quantity (get_last_inventory_entry ex_stock_db ''Ikan Mujair'') = Some 6
   \<and> ta_quantity (ex_sale 20) = 20
   \<and> fst (process_sale ex_stock_db ''2026'' (ex_sale 20)) = Inl InsufficientStock
   \<and> journal_entries (snd (process_sale ex_stock_db ''2026'' (ex_sale 20)))
        = journal_entries ex_stock_db
   \<and> inventory_card (snd (process_sale ex_stock_db ''2026'' (ex_sale 20)))
        = inventory_card ex_stock_db
   \<and> sales ex_stock_db = []
   \<and> map (\<lambda>r. (item_name r, quantity r, status r))
        (sales (snd (process_sale ex_stock_db ''2026'' (ex_sale 20))))
        = [(''Ikan Mujair'', 20, ''completed'')]"
  by code_simp

section \<open>Journal posting: balance check and registered accounts\<close>

lemma find_registered:
  "registered s code \<Longrightarrow> \<exists>a. find (\<lambda>a. account_code a = code) (get_all_accounts s) = Some a
     \<and> account_code a = code"
  by (cases "find (\<lambda>a. account_code a = code) (get_all_accounts s)")
     (auto simp: registered_def find_None_iff dest: find_Some_iff [THEN iffD1])

lemma journal_create [simp]:
  "journal_entries (create_journal_entry s dt code name d dr cr jt ref)
     = journal_entries s @
        [\<lparr>je_id = fresh_id (map je_id (journal_entries s)), je_date = dt,
          je_account_code = code, je_account_name = name, je_description = d,
          debit = dr, credit = cr, journal_type = jt, ref_code = ref, transaction_id = ''''\<rparr>]"
  by (simp add: create_journal_entry_def)

lemma accounts_create [simp]:
  "get_all_accounts (create_journal_entry s dt code name d dr cr jt ref) = get_all_accounts s"
  by (simp add: create_journal_entry_def get_all_accounts_def)

lemma gj_unbalanced:
  assumes "out_of_balance (parse_rupiah (debit_amount f)) (parse_rupiah (credit_amount f))"
  shows "fst (akuntan_journal_gj s f) \<noteq> Saved \<and> snd (akuntan_journal_gj s f) = s"
  using assms by (simp add: akuntan_journal_gj_def out_of_balance_def Let_def)

lemma gj_unbalanced_outcome:
  assumes "out_of_balance (parse_rupiah (debit_amount f)) (parse_rupiah (credit_amount f))"
    and "debit_account f \<noteq> []" "credit_account f \<noteq> []"
    and "parse_rupiah (debit_amount f) > 0" "parse_rupiah (credit_amount f) > 0"
  shows "akuntan_journal_gj s f = (NotBalanced, s)"
  using assms by (simp add: akuntan_journal_gj_def out_of_balance_def Let_def)

lemma gj_balanced:
  assumes "\<not> out_of_balance (parse_rupiah (debit_amount f)) (parse_rupiah (credit_amount f))"
    and "debit_account f \<noteq> []" "credit_account f \<noteq> []"
    and "parse_rupiah (debit_amount f) > 0" "parse_rupiah (credit_amount f) > 0"
    and "registered s (debit_account f)" "registered s (credit_account f)"
  shows "fst (akuntan_journal_gj s f) = Saved
       \<and> map posted_line (journal_entries (snd (akuntan_journal_gj s f)))
          = map posted_line (journal_entries s) @
              [(debit_account f, parse_rupiah (debit_amount f), 0, ''GJ''),
               (credit_account f, 0, parse_rupiah (credit_amount f), ''GJ'')]"
proof -
  from find_registered [OF assms(6)] obtain da where
    da: "find (\<lambda>a. account_code a = debit_account f) (get_all_accounts s) = Some da"
        "account_code da = debit_account f" by blast
  from find_registered [OF assms(7)] obtain ca where
    ca: "find (\<lambda>a. account_code a = credit_account f) (get_all_accounts s) = Some ca"
        "account_code ca = credit_account f" by blast
  from assms(1,4,5) have c:
    "\<not> \<bar>fsub (parse_rupiah (debit_amount f)) (parse_rupiah (credit_amount f))\<bar> > float (1 / 100)"
    "\<not> parse_rupiah (debit_amount f) \<le> 0" "\<not> parse_rupiah (credit_amount f) \<le> 0"
    by (simp_all add: out_of_balance_def)
  show ?thesis
    using assms(2,3) c da ca
    by (simp add: akuntan_journal_gj_def Let_def posted_line_def)
qed

lemma collect_entry_registered:
  assumes "aj_account_code row \<noteq> []" "registered s (aj_account_code row)"
  shows "\<exists>e. collect_entry s row = [e] \<and> ae_account_code e = aj_account_code row
             \<and> ae_debit e = parse_rupiah (aj_debit row)
             \<and> ae_credit e = parse_rupiah (aj_credit row)"
proof -
  from find_registered [OF assms(2)] obtain a where
    "find (\<lambda>a. account_code a = aj_account_code row) (get_all_accounts s) = Some a" by blast
  with assms(1) show ?thesis by (simp add: collect_entry_def)
qed

lemma collect_entry_empty: "aj_account_code row = [] \<Longrightarrow> collect_entry s row = []"
  by (simp add: collect_entry_def)

lemma collected_all:
  assumes "\<forall>row \<in> set rows. aj_account_code row \<noteq> [] \<longrightarrow> registered s (aj_account_code row)"
  shows "map entry_line (concat (map (collect_entry s) rows))
           = map row_line (filter (\<lambda>row. aj_account_code row \<noteq> []) rows)"
  using assms
proof (induction rows)
  case Nil
  then show ?case by simp
next
  case (Cons row rows)
  show ?case
  proof (cases "aj_account_code row = []")
    case True
    with Cons show ?thesis by (simp add: collect_entry_empty)
  next
    case False
    with Cons.prems have "registered s (aj_account_code row)" by simp
    from collect_entry_registered [OF False this] obtain e where
      "collect_entry s row = [e]" "entry_line e = row_line row"
      by (auto simp: entry_line_def row_line_def)
    with Cons False show ?thesis by simp
  qed
qed

lemma fold_post_adjustment:
  "map posted_line (journal_entries (fold (post_adjustment_entry dt ref) es s))
     = map posted_line (journal_entries s) @ map entry_line es"
  by (induction es arbitrary: s)
     (simp_all add: post_adjustment_entry_def create_adjustment_entry_def posted_line_def
        entry_line_def)

lemma map_entry_line:
  "map ae_debit es = map (\<lambda>l. fst (snd l)) (map entry_line es)"
  "map ae_credit es = map (\<lambda>l. fst (snd (snd l))) (map entry_line es)"
  by (simp_all add: entry_line_def comp_def)

lemma map_row_line:
  "map (\<lambda>row. parse_rupiah (aj_debit row)) rs = map (\<lambda>l. fst (snd l)) (map row_line rs)"
  "map (\<lambda>row. parse_rupiah (aj_credit row)) rs = map (\<lambda>l. fst (snd (snd l))) (map row_line rs)"
  by (simp_all add: row_line_def comp_def)

lemma aj_post:
  assumes "\<forall>row \<in> set (submitted_rows rows). registered s (aj_account_code row)"
  shows "(out_of_balance
            (py_sum (map (\<lambda>row. parse_rupiah (aj_debit row)) (submitted_rows rows)))
            (py_sum (map (\<lambda>row. parse_rupiah (aj_credit row)) (submitted_rows rows)))
          \<longrightarrow> akuntan_adjustment_journal s dt ref rows = (NotBalanced, s))
       \<and> (\<not> out_of_balance
            (py_sum (map (\<lambda>row. parse_rupiah (aj_debit row)) (submitted_rows rows)))
            (py_sum (map (\<lambda>row. parse_rupiah (aj_credit row)) (submitted_rows rows)))
          \<longrightarrow> fst (akuntan_adjustment_journal s dt ref rows) = Saved
            \<and> map posted_line (journal_entries (snd (akuntan_adjustment_journal s dt ref rows)))
                = map posted_line (journal_entries s) @ map row_line (submitted_rows rows))"
proof -
  let ?es = "concat (map (collect_entry s) (take 10 rows))"
  from assms have "\<forall>row \<in> set (take 10 rows).
      aj_account_code row \<noteq> [] \<longrightarrow> registered s (aj_account_code row)"
    by (simp add: submitted_rows_def)
  then have m: "map entry_line ?es = map row_line (submitted_rows rows)"
    unfolding submitted_rows_def by (rule collected_all)
  have d: "map ae_debit ?es = map (\<lambda>row. parse_rupiah (aj_debit row)) (submitted_rows rows)"
    by (simp only: map_entry_line map_row_line m)
  have c: "map ae_credit ?es = map (\<lambda>row. parse_rupiah (aj_credit row)) (submitted_rows rows)"
    by (simp only: map_entry_line map_row_line m)
  show ?thesis
    by (simp add: akuntan_adjustment_journal_def Let_def d c fold_post_adjustment m
        out_of_balance_def)
qed

text \<open>Equal totals pass the balance test; on whole amounts the test refuses exactly the
  totals that differ.\<close>

lemma float_hundredth: "0 < float (1 / 100) \<and> float (1 / 100) < 1"
  by code_simp

lemma out_of_balance_equal: "\<not> out_of_balance x x"
  using float_hundredth by (simp add: out_of_balance_def fsub_def float_def)

lemma out_of_balance_whole:
  assumes "whole v" "whole w" "\<bar>v\<bar> + \<bar>w\<bar> < 2 ^ 53"
  shows "out_of_balance (parse_rupiah v) (parse_rupiah w) \<longleftrightarrow> v \<noteq> w"
proof -
  from assms have v: "parse_rupiah v = v" and w: "parse_rupiah w = w"
    unfolding parse_rupiah_def by (auto intro!: float_whole_eq)
  from assms have s: "fsub v w = v - w" by (rule fsub_whole)
  from assms(1,2) have "v - w \<in> \<int>" by (simp add: whole_iff)
  then obtain z where z: "v - w = of_int z" by (rule Ints_cases)
  show ?thesis
  proof (cases "v = w")
    case True
    then show ?thesis using out_of_balance_equal [of w] by (simp add: v w)
  next
    case False
    with z have "z \<noteq> 0" by auto
    then have "1 \<le> \<bar>z\<bar>" by simp
    then have "(1::rat) \<le> \<bar>of_int z\<bar>" by (metis of_int_1_le_iff of_int_abs)
    with float_hundredth have "float (1 / 100) < \<bar>v - w\<bar>" by (simp add: z)
    with False show ?thesis by (simp add: out_of_balance_def v w s)
  qed
qed

text \<open>
  Claim C3, as the code has it. The routes compare the totals as binary floats: a set of
  lines is out of balance when the absolute value of the rounded difference of its float
  totals is greater than the float nearest to 0.01. A posting that is out of balance is
  refused and writes nothing: in the general journal always (with the not-balanced
  message once both accounts are chosen and both amounts are positive), in the adjustment
  journal for the submitted rows when each of their accounts is registered. When the set
  is not out of balance, every account of the set is registered and, in the general
  journal, both amounts are positive, every line of the set is appended after the lines
  already in the journal. Equal totals are never out of balance, and totals typed as whole
  numbers (of a magnitude below \<open>2 ^ 53\<close>) are out of balance exactly when they differ.
\<close>

theorem posting_balanced_all_or_nothing:
  "(out_of_balance (parse_rupiah (debit_amount f)) (parse_rupiah (credit_amount f)) \<longrightarrow>
       fst (akuntan_journal_gj s f) \<noteq> Saved \<and> snd (akuntan_journal_gj s f) = s)
   \<and> (out_of_balance (parse_rupiah (debit_amount f)) (parse_rupiah (credit_amount f))
        \<and> debit_account f \<noteq> [] \<and> credit_account f \<noteq> []
        \<and> parse_rupiah (debit_amount f) > 0 \<and> parse_rupiah (credit_amount f) > 0 \<longrightarrow>
       akuntan_journal_gj s f = (NotBalanced, s))
   \<and> (\<not> out_of_balance (parse_rupiah (debit_amount f)) (parse_rupiah (credit_amount f))
        \<and> debit_account f \<noteq> [] \<and> credit_account f \<noteq> []
        \<and> parse_rupiah (debit_amount f) > 0 \<and> parse_rupiah (credit_amount f) > 0
        \<and> registered s (debit_account f) \<and> registered s (credit_account f) \<longrightarrow>
       fst (akuntan_journal_gj s f) = Saved
       \<and> map posted_line (journal_entries (snd (akuntan_journal_gj s f)))
          = map posted_line (journal_entries s) @
              [(debit_account f, parse_rupiah (debit_amount f), 0, ''GJ''),
               (credit_account f, 0, parse_rupiah (credit_amount f), ''GJ'')])
   \<and> ((\<forall>row \<in> set (submitted_rows rows). registered s (aj_account_code row)) \<longrightarrow>
       (out_of_balance
            (py_sum (map (\<lambda>row. parse_rupiah (aj_debit row)) (submitted_rows rows)))
            (py_sum (map (\<lambda>row. parse_rupiah (aj_credit row)) (submitted_rows rows)))
          \<longrightarrow> akuntan_adjustment_journal s dt ref rows = (NotBalanced, s))
       \<and> (\<not> out_of_balance
            (py_sum (map (\<lambda>row. parse_rupiah (aj_debit row)) (submitted_rows rows)))
            (py_sum (map (\<lambda>row. parse_rupiah (aj_credit row)) (submitted_rows rows)))
          \<longrightarrow> fst (akuntan_adjustment_journal s dt ref rows) = Saved
            \<and> map posted_line (journal_entries (snd (akuntan_adjustment_journal s dt ref rows)))
                = map posted_line (journal_entries s) @ map row_line (submitted_rows rows)))
   \<and> \<not> out_of_balance x x
   \<and> (whole v \<and> whole w \<and> \<bar>v\<bar> + \<bar>w\<bar> < 2 ^ 53 \<longrightarrow>
        (out_of_balance (parse_rupiah v) (parse_rupiah w) \<longleftrightarrow> v \<noteq> w))"
  using gj_unbalanced [of f s] gj_unbalanced_outcome [of f s] gj_balanced [of f s]
    aj_post [of rows s dt ref] out_of_balance_equal [of x] out_of_balance_whole [of v w]
  by blast

lemma ex_gj_unbalanced:
  "out_of_balance (parse_rupiah (debit_amount (gj ''1-1000'' 100 ''4-1000'' 90)))
      (parse_rupiah (credit_amount (gj ''1-1000'' 100 ''4-1000'' 90)))
   \<and> debit_account (gj ''1-1000'' 100 ''4-1000'' 90) \<noteq> []
   \<and> credit_account (gj ''1-1000'' 100 ''4-1000'' 90) \<noteq> []
   \<and> parse_rupiah (debit_amount (gj ''1-1000'' 100 ''4-1000'' 90)) > 0
   \<and> parse_rupiah (credit_amount (gj ''1-1000'' 100 ''4-1000'' 90)) > 0"
  by code_simp

lemma ex_gj_balanced:
  "\<not> out_of_balance (parse_rupiah (debit_amount (gj ''1-1000'' 100 ''4-1000'' 100)))
      (parse_rupiah (credit_amount (gj ''1-1000'' 100 ''4-1000'' 100)))
   \<and> debit_account (gj ''1-1000'' 100 ''4-1000'' 100) \<noteq> []
   \<and> credit_account (gj ''1-1000'' 100 ''4-1000'' 100) \<noteq> []
   \<and> parse_rupiah (debit_amount (gj ''1-1000'' 100 ''4-1000'' 100)) > 0
   \<and> parse_rupiah (credit_amount (gj ''1-1000'' 100 ''4-1000'' 100)) > 0
   \<and> registered ex_db (debit_account (gj ''1-1000'' 100 ''4-1000'' 100))
   \<and> registered ex_db (credit_account (gj ''1-1000'' 100 ''4-1000'' 100))"
  by code_simp

lemma ex_aj_registered:
  "\<forall>row \<in> set (submitted_rows [aj ''6-1000'' 500 0, aj ''1-2210'' 0 500]).
      registered ex_db (aj_account_code row)"
  by code_simp

lemma ex_aj_balanced:
  "\<not> out_of_balance
       (py_sum (map (\<lambda>row. parse_rupiah (aj_debit row))
          (submitted_rows [aj ''6-1000'' 500 0, aj ''1-2210'' 0 500])))
       (py_sum (map (\<lambda>row. parse_rupiah (aj_credit row))
          (submitted_rows [aj ''6-1000'' 500 0, aj ''1-2210'' 0 500])))"
  by code_simp

lemma ex_gj_lines:
  "[(debit_account (gj ''1-1000'' 100 ''4-1000'' 100),
     parse_rupiah (debit_amount (gj ''1-1000'' 100 ''4-1000'' 100)), 0, ''GJ''),
    (credit_account (gj ''1-1000'' 100 ''4-1000'' 100), 0,
     parse_rupiah (credit_amount (gj ''1-1000'' 100 ''4-1000'' 100)), ''GJ'')]
   = [(''1-1000'', 100, 0, ''GJ''), (''4-1000'', 0, 100, ''GJ'')]"
  "map row_line (submitted_rows [aj ''6-1000'' 500 0, aj ''1-2210'' 0 500])
   = [(''6-1000'', 500, 0, ''AJ''), (''1-2210'', 0, 500, ''AJ'')]"
  by code_simp+

theorem posting_balanced_all_or_nothing_witness:
  "akuntan_journal_gj ex_db (gj ''1-1000'' 100 ''4-1000'' 90) = (NotBalanced, ex_db)
   \<and> fst (akuntan_journal_gj ex_db (gj ''1-1000'' 100 ''4-1000'' 100)) = Saved
   \<and> map posted_line
        (journal_entries (snd (akuntan_journal_gj ex_db (gj ''1-1000'' 100 ''4-1000'' 100))))
      = map posted_line (journal_entries ex_db) @
          [(''1-1000'', 100, 0, ''GJ''), (''4-1000'', 0, 100, ''GJ'')]
   \<and> fst (akuntan_adjustment_journal ex_db 28 ''AJ28''
            [aj ''6-1000'' 500 0, aj ''1-2210'' 0 500]) = Saved
   \<and> map posted_line (journal_entries (snd (akuntan_adjustment_journal ex_db 28 ''AJ28''
            [aj ''6-1000'' 500 0, aj ''1-2210'' 0 500])))
      = map posted_line (journal_entries ex_db)
          @ [(''6-1000'', 500, 0, ''AJ''), (''1-2210'', 0, 500, ''AJ'')]"
proof -
  from posting_balanced_all_or_nothing [of "gj ''1-1000'' 100 ''4-1000'' 90" ex_db] ex_gj_unbalanced
  have a: "akuntan_journal_gj ex_db (gj ''1-1000'' 100 ''4-1000'' 90) = (NotBalanced, ex_db)"
    by blast
  from posting_balanced_all_or_nothing
         [of "gj ''1-1000'' 100 ''4-1000'' 100" ex_db "[aj ''6-1000'' 500 0, aj ''1-2210'' 0 500]"
             28 "''AJ28''"]
       ex_gj_balanced ex_aj_registered ex_aj_balanced
  have b: "fst (akuntan_journal_gj ex_db (gj ''1-1000'' 100 ''4-1000'' 100)) = Saved
   \<and> map posted_line
        (journal_entries (snd (akuntan_journal_gj ex_db (gj ''1-1000'' 100 ''4-1000'' 100))))
      = map posted_line (journal_entries ex_db) @
          [(debit_account (gj ''1-1000'' 100 ''4-1000'' 100),
            parse_rupiah (debit_amount (gj ''1-1000'' 100 ''4-1000'' 100)), 0, ''GJ''),
           (credit_account (gj ''1-1000'' 100 ''4-1000'' 100), 0,
            parse_rupiah (credit_amount (gj ''1-1000'' 100 ''4-1000'' 100)), ''GJ'')]
   \<and> fst (akuntan_adjustment_journal ex_db 28 ''AJ28''
            [aj ''6-1000'' 500 0, aj ''1-2210'' 0 500]) = Saved
   \<and> map posted_line (journal_entries (snd (akuntan_adjustment_journal ex_db 28 ''AJ28''
            [aj ''6-1000'' 500 0, aj ''1-2210'' 0 500])))
      = map posted_line (journal_entries ex_db)
          @ map row_line (submitted_rows [aj ''6-1000'' 500 0, aj ''1-2210'' 0 500])"
    by blast
  from a b show ?thesis by (simp only: ex_gj_lines) 
qed

text \<open>The claim as stated fails in two places. Where the general-journal form carries two
  amounts of 0, the totals agree, both accounts are registered, and the route refuses the
  posting (its guard asks for amounts above 0) and appends nothing. And a debit of 100.01
  against a credit of 100.00, whose totals differ by 0.01 and not by more, is refused as
  not balanced: the float difference is 0.010000000000005116, above the float 0.01.\<close>

theorem posting_balanced_all_or_nothing_counterexample:
  "\<bar>debit_amount (gj ''1-1000'' 0 ''4-1000'' 0) - credit_amount (gj ''1-1000'' 0 ''4-1000'' 0)\<bar>
      \<le> 1 / 100
   \<and> registered ex_db (debit_account (gj ''1-1000'' 0 ''4-1000'' 0))
   \<and> registered ex_db (credit_account (gj ''1-1000'' 0 ''4-1000'' 0))
   \<and> akuntan_journal_gj ex_db (gj ''1-1000'' 0 ''4-1000'' 0) = (AmountNotPositive, ex_db)
   \<and> \<bar>debit_amount (gj ''1-1000'' (10001 / 100) ''4-1000'' 100)
        - credit_amount (gj ''1-1000'' (10001 / 100) ''4-1000'' 100)\<bar> \<le> 1 / 100
   \<and> fsub (parse_rupiah (10001 / 100)) (parse_rupiah 100) = 703687441777 / 70368744177664
   \<and> akuntan_journal_gj ex_db (gj ''1-1000'' (10001 / 100) ''4-1000'' 100)
        = (NotBalanced, ex_db)"
  by code_simp

text \<open>
  Claim C9. A general-journal posting whose credit account is not in the registry is not
  refused: the route skips the credit line, writes the debit line alone and reports the
  entry as saved. Here the debit account \<open>1-1000\<close> is registered and the credit account
  \<open>9-9999\<close> is not.
\<close>

theorem gj_unknown_credit_account_posts_one_line:
  "\<not> registered ex_db (credit_account (gj ''1-1000'' 100 ''9-9999'' 100))
   \<and> fst (akuntan_journal_gj ex_db (gj ''1-1000'' 100 ''9-9999'' 100)) = Saved
   \<and> map posted_line
        (journal_entries (snd (akuntan_journal_gj ex_db (gj ''1-1000'' 100 ''9-9999'' 100))))
      = map posted_line (journal_entries ex_db) @ [(''1-1000'', 100, 0, ''GJ'')]"
  by code_simp

section \<open>Statement builders: balance sheet and worksheet\<close>

lemma find_distinct_self:
  "distinct (map key xs) \<Longrightarrow> a \<in> set xs \<Longrightarrow> find (\<lambda>b. key b = key a) xs = Some a"
  by (induction xs) auto

lemma sum_indicator_distinct:
  "distinct (map key xs) \<Longrightarrow> c \<in> key ` set xs \<Longrightarrow>
   sum_list (map (\<lambda>a. if c = key a then (v::money) else 0) xs) = v"
proof (induction xs)
  case Nil
  then show ?case by simp
next
  case (Cons a xs)
  show ?case
  proof (cases "c = key a")
    case True
    with Cons.prems have "c \<notin> key ` set xs" by auto
    then have "sum_list (map (\<lambda>a. if c = key a then v else 0) xs) = 0"
      by (induction xs) auto
    with True show ?thesis by simp
  next
    case False
    with Cons show ?thesis by auto
  qed
qed

lemma sum_by_account:
  assumes "distinct (map key xs)" and "\<forall>e \<in> set es. c e \<in> key ` set xs"
  shows "sum_list (map (\<lambda>a. sum_list (map f (filter (\<lambda>e. c e = key a) es))) xs)
           = (sum_list (map f es) :: money)"
  using assms(2)
proof (induction es)
  case Nil
  then show ?case by simp
next
  case (Cons e es)
  have "sum_list (map (\<lambda>a. sum_list (map f (filter (\<lambda>e. c e = key a) (e # es)))) xs)
        = sum_list (map (\<lambda>a. (if c e = key a then f e else 0)
                              + sum_list (map f (filter (\<lambda>e. c e = key a) es))) xs)"
    by (rule arg_cong [where f = sum_list], rule map_cong) auto
  also have "\<dots> = sum_list (map (\<lambda>a. if c e = key a then f e else 0) xs)
                  + sum_list (map (\<lambda>a. sum_list (map f (filter (\<lambda>e. c e = key a) es))) xs)"
    by (simp add: sum_list_addf)
  also have "\<dots> = f e + sum_list (map f es)"
    using Cons sum_indicator_distinct [OF assms(1), of "c e" "f e"] by simp
  finally show ?case by simp
qed

lemma ledger_balance_split:
  assumes "a \<in> set (get_all_accounts s)" "distinct (map account_code (get_all_accounts s))"
  shows "debit_balance s d jts a
           = signed_beginning a
             + sum_list (map movement
                 (filter (\<lambda>e. je_account_code e = account_code a) (counted_lines s d jts)))"
proof -
  have f: "filter (\<lambda>e. date_ok d e \<and> type_ok jts e \<and> je_account_code e = account_code a)
             (journal_entries s)
         = filter (\<lambda>e. je_account_code e = account_code a \<and> date_ok d e \<and> type_ok jts e)
             (journal_entries s)"
    by (rule filter_cong) auto
  have m: "sum_list (map movement es) = sum_list (map debit es) - sum_list (map credit es)" for es
    by (induction es) (simp_all add: movement_def)
  from find_distinct_self [OF assms(2,1)] show ?thesis
    by (simp add: debit_balance_def get_ledger_balance_def signed_beginning_def counted_lines_def
        Let_def f m)
qed

lemma total_debit_balance:
  assumes "distinct (map account_code (get_all_accounts s))" "lines_registered s d jts"
  shows "sum_list (map (debit_balance s d jts) (get_all_accounts s)) = imbalance s d jts"
proof -
  have "sum_list (map (debit_balance s d jts) (get_all_accounts s))
        = sum_list (map (\<lambda>a. signed_beginning a
             + sum_list (map movement
                 (filter (\<lambda>e. je_account_code e = account_code a) (counted_lines s d jts))))
            (get_all_accounts s))"
    by (rule arg_cong [where f = sum_list], rule map_cong)
       (simp_all add: ledger_balance_split assms(1))
  also have "\<dots> = sum_list (map signed_beginning (get_all_accounts s))
       + sum_list (map (\<lambda>a. sum_list (map movement
                 (filter (\<lambda>e. je_account_code e = account_code a) (counted_lines s d jts))))
            (get_all_accounts s))"
    by (simp add: sum_list_addf)
  also have "\<dots> = imbalance s d jts"
    using assms(2)
    by (subst sum_by_account [OF assms(1)])
       (auto simp: lines_registered_def registered_def imbalance_def)
  finally show ?thesis .
qed

lemma keys_fold_update_distinct:
  "distinct (map fst d0 @ map key xs) \<Longrightarrow>
   fold (\<lambda>a d. AList.update (key a) (val a) d) xs d0 = d0 @ map (\<lambda>a. (key a, val a)) xs"
proof (induction xs arbitrary: d0)
  case Nil
  then show ?case by simp
next
  case (Cons a xs)
  from Cons.prems have n: "key a \<notin> fst ` set d0" by auto
  then have u: "AList.update (key a) (val a) d0 = d0 @ [(key a, val a)]"
    by (induction d0) auto
  from Cons.prems have "distinct (map fst (d0 @ [(key a, val a)]) @ map key xs)" by auto
  from Cons.IH [OF this] u show ?case by simp
qed

lemma dict_of_distinct:
  "distinct (map key xs) \<Longrightarrow> dict_of key val xs = map (\<lambda>a. (key a, val a)) xs"
  unfolding dict_of_def using keys_fold_update_distinct [of "[]" key xs val] by simp

lemma add_entry_keys: "map fst (add_entry amap e bal) = map fst bal"
proof -
  have "map_of bal k = Some b \<Longrightarrow> map fst (AList.update k v bal) = map fst bal" for k b v
    by (simp add: update_keys map_of_eq_None_iff [symmetric] del: map_of_eq_None_iff)
  then show ?thesis
    by (auto simp: add_entry_def Let_def split: option.splits)
qed

lemma fold_add_entry_keys: "map fst (fold (add_entry amap) es bal) = map fst bal"
  by (induction es arbitrary: bal) (simp_all add: add_entry_keys)

lemma alist_by_keys:
  "distinct (map fst al) \<Longrightarrow> (\<And>k. k \<in> set ks \<Longrightarrow> map_of al k = Some (v k)) \<Longrightarrow>
   map fst al = ks \<Longrightarrow> al = map (\<lambda>k. (k, v k)) ks"
proof (induction al arbitrary: ks)
  case Nil
  then show ?case by simp
next
  case (Cons p al)
  obtain k w where p: "p = (k, w)" by (cases p)
  from Cons.prems(3) p obtain ks' where ks: "ks = k # ks'" "map fst al = ks'" by auto
  from Cons.prems(2) [of k] p ks have w: "w = v k" by simp
  have "map_of al k' = Some (v k')" if "k' \<in> set ks'" for k'
  proof -
    from that ks Cons.prems(1) p have "k' \<noteq> k" by auto
    with Cons.prems(2) [of k'] that ks p show ?thesis by simp
  qed
  from Cons.IH [OF _ this ks(2)] Cons.prems(1) have "al = map (\<lambda>k. (k, v k)) ks'" by simp
  with p w ks show ?case by simp
qed

lemma final_balances_dict_eq:
  assumes "distinct (map account_code (get_all_accounts s))"
  shows "final_balances_dict s d jts
           = map (\<lambda>a. (account_code a, get_ledger_balance s (account_code a) d jts))
               (get_all_accounts s)"
proof -
  have keys: "map fst (final_balances_dict s d jts) = map account_code (get_all_accounts s)"
    by (simp add: final_balances_dict_def Let_def fold_add_entry_keys dict_of_distinct assms
        comp_def)
  have look: "map_of (final_balances_dict s d jts) k = Some (get_ledger_balance s k d jts)"
    if "k \<in> set (map account_code (get_all_accounts s))" for k
  proof -
    from that obtain a where "a \<in> set (get_all_accounts s)" "k = account_code a" by auto
    with find_distinct_self [OF assms, of a] final_balances_dict_lookup [OF assms, of d jts k]
    show ?thesis by simp
  qed
  from alist_by_keys [OF final_balances_dict_distinct look keys]
  show ?thesis by (simp add: comp_def)
qed

lemma get_final_balances_eq:
  assumes "distinct (map account_code (get_all_accounts s))"
  shows "get_final_balances s d jts = concat (map (reported s d jts) (get_all_accounts s))"
proof -
  have "final_data_item (dict_of account_code (\<lambda>acc. acc) (get_all_accounts s))
          (account_code a, get_ledger_balance s (account_code a) d jts) = reported s d jts a"
    if "a \<in> set (get_all_accounts s)" for a
    using map_of_dict_of_find [OF assms find_distinct_self [OF assms that], of "\<lambda>acc. acc"]
    by (simp add: final_data_item_def reported_def Let_def)
  then show ?thesis
    by (simp add: get_final_balances_def Let_def final_balances_dict_eq [OF assms] comp_def
        cong: map_cong)
qed







text \<open>When the counted lines of every reference code balance exactly, the counted lines
  balance in total; with balanced beginning balances the ledger is then in balance.\<close>

lemma sum_by_ref_zero:
  assumes "\<forall>ref \<in> set (map ref_code es).
             sum_list (map g (filter (\<lambda>e. ref_code e = ref) es)) = (0 :: money)"
  shows "sum_list (map g es) = 0"
  using assms
proof (induction "length es" arbitrary: es rule: less_induct)
  case less
  show ?case
  proof (cases es)
    case Nil
    then show ?thesis by simp
  next
    case (Cons e rest)
    let ?same = "filter (\<lambda>a. ref_code a = ref_code e) es"
    let ?other = "filter (\<lambda>a. ref_code a \<noteq> ref_code e) es"
    have split: "sum_list (map g es) = sum_list (map g ?same) + sum_list (map g ?other)"
      by (induction es) simp_all
    from less.prems Cons have same: "sum_list (map g ?same) = 0" by simp
    have shorter: "length ?other < length es"
      using Cons by (simp add: less_Suc_eq_le)
    have "\<forall>ref \<in> set (map ref_code ?other).
            sum_list (map g (filter (\<lambda>a. ref_code a = ref) ?other)) = 0"
    proof
      fix ref assume r: "ref \<in> set (map ref_code ?other)"
      then have ne: "ref \<noteq> ref_code e" and m: "ref \<in> set (map ref_code es)" by auto
      have "filter (\<lambda>a. ref_code a = ref) ?other = filter (\<lambda>a. ref_code a = ref) es"
        using ne by (auto intro: filter_cong)
      moreover from less.prems m
      have "sum_list (map g (filter (\<lambda>a. ref_code a = ref) es)) = 0" by blast
      ultimately show "sum_list (map g (filter (\<lambda>a. ref_code a = ref) ?other)) = 0"
        by (simp only:)
    qed
    from less.hyps [OF shorter this] same split show ?thesis by simp
  qed
qed

lemma imbalance_exact_refs:
  "beginning_balanced s \<Longrightarrow> counted_refs_exact s d jts \<Longrightarrow> imbalance s d jts = 0"
  using sum_by_ref_zero [of "counted_lines s d jts" movement]
  by (simp add: imbalance_def beginning_balanced_def counted_refs_exact_def)



lemma ex_db_lines_registered: "lines_registered ex_db (Some 31) (Some [''GJ'', ''AJ''])"
  by code_simp


lemma ex_db_imbalance: "imbalance ex_db (Some 31) (Some [''GJ'', ''AJ'']) = 0"
  by code_simp



subsection \<open>Worksheet\<close>

lemma reported_cases:
  "reported s d jts a = []
   \<or> reported s d jts a = [\<lparr>fb_code = account_code a, fb_name = account_name a,
         fb_normal_balance = normal_balance a,
         amount = get_ledger_balance s (account_code a) d jts\<rparr>]"
  by (simp add: reported_def Let_def)

lemma reported_codes:
  "fb_code ` set (concat (map (reported s d jts) xs)) \<subseteq> account_code ` set xs"
proof (induction xs)
  case Nil
  then show ?case by simp
next
  case (Cons a xs)
  from reported_cases [of s d jts a] Cons show ?case by auto
qed

lemma reported_distinct:
  "distinct (map account_code xs) \<Longrightarrow>
   distinct (map fb_code (concat (map (reported s d jts) xs)))"
proof (induction xs)
  case Nil
  then show ?case by simp
next
  case (Cons a xs)
  from Cons.prems reported_codes [of s d jts xs]
  have "account_code a \<notin> fb_code ` set (concat (map (reported s d jts) xs))" by auto
  with reported_cases [of s d jts a] Cons show ?case by auto
qed

lemma map_of_reported:
  "distinct (map account_code xs) \<Longrightarrow> a \<in> set xs \<Longrightarrow>
   get0 (map (\<lambda>r. (fb_code r, amount r)) (concat (map (reported s d jts) xs))) (account_code a)
     = sum_list (map amount (reported s d jts a))"
proof (induction xs)
  case Nil
  then show ?case by simp
next
  case (Cons b xs)
  show ?case
  proof (cases "a = b")
    case True
    from Cons.prems reported_codes [of s d jts xs]
    have "account_code b \<notin> fb_code ` set (concat (map (reported s d jts) xs))" by auto
    then have n: "map_of (map (\<lambda>r. (fb_code r, amount r)) (concat (map (reported s d jts) xs)))
             (account_code b) = None"
      by (simp add: map_of_eq_None_iff image_image del: set_concat)
    from reported_cases [of s d jts b] show ?thesis
      by (auto simp: True get0_def n map_add_def)
  next
    case False
    with Cons.prems have m: "a \<in> set xs" by simp
    have ne: "account_code a \<noteq> account_code b"
    proof
      assume "account_code a = account_code b"
      with m have "account_code b \<in> account_code ` set xs" by (metis imageI)
      with Cons.prems(1) show False by simp
    qed
    from Cons.IH [OF _ m] Cons.prems(1)
    have ih: "get0 (map (\<lambda>r. (fb_code r, amount r)) (concat (map (reported s d jts) xs)))
                 (account_code a) = sum_list (map amount (reported s d jts a))" by simp
    from reported_cases [of s d jts b] ih ne show ?thesis
      by (auto simp: get0_def map_add_def)
  qed
qed

lemma get0_final_balances:
  assumes "distinct (map account_code (get_all_accounts s))" "a \<in> set (get_all_accounts s)"
  shows "get0 (dict_of fb_code amount (get_final_balances s d jts)) (account_code a)
           = sum_list (map amount (reported s d jts a))"
  by (simp add: get_final_balances_eq [OF assms(1)] dict_of_distinct
      reported_distinct [OF assms(1)] map_of_reported [OF assms])

lemma get0_final_balances_settled:
  assumes "distinct (map account_code (get_all_accounts s))" "a \<in> set (get_all_accounts s)"
    and "get_ledger_balance s (account_code a) d jts = 0
         \<or> \<bar>get_ledger_balance s (account_code a) d jts\<bar> > 1 / 100"
  shows "get0 (dict_of fb_code amount (get_final_balances s d jts)) (account_code a)
           = get_ledger_balance s (account_code a) d jts"
  using assms(3) by (auto simp: get0_final_balances [OF assms(1,2)] reported_def Let_def)

lemma column_difference:
  "debet_column nb b - kredit_column nb b = (if nb = ''debit'' then b else - b)"
  by (simp add: debet_column_def kredit_column_def)

lemma column_gap_concat:
  "column_gap (concat (map F xs)) = sum_list (map (\<lambda>a. column_gap (F a)) xs)"
proof -
  have c: "sum_list (map g (concat (map F xs)))
            = (sum_list (map (\<lambda>a. sum_list (map g (F a))) xs) :: money)" for g
    by (induction xs) simp_all
  show ?thesis
    by (simp add: column_gap_def c sum_list_addf sum_list_subtractf)
qed

lemma column_gap_row:
  assumes "get0 nsa_map (account_code a) = b" "b = 0 \<or> \<bar>b\<bar> > 1 / 100"
  shows "column_gap (worksheet_row_of ns_map adj_d adj_k nsa_map a)
           = (if normal_balance a = ''debit'' then b else - b)"
proof (cases "b = 0")
  case True
  with assms(1) show ?thesis
    by (simp add: worksheet_row_of_def column_gap_def Let_def debet_column_def kredit_column_def)
next
  case False
  with assms(2) have "\<bar>b\<bar> > 1 / 100" by simp
  with assms(1) show ?thesis
    by (simp add: worksheet_row_of_def column_gap_def Let_def column_difference)
qed

lemma worksheet_gap:
  assumes "distinct (map account_code (get_all_accounts s))"
    "lines_registered s (Some d) (Some [''GJ'', ''AJ''])"
    "no_residue s (Some d) (Some [''GJ'', ''AJ''])"
  shows "column_gap (worksheet_data (akuntan_worksheet s d))
           = imbalance s (Some d) (Some [''GJ'', ''AJ''])"
proof -
  let ?J = "Some [''GJ'', ''AJ'']"
  let ?nsa = "dict_of fb_code amount (get_final_balances s (Some d) ?J)"
  have "column_gap (worksheet_row_of ns ad ak ?nsa a) = debit_balance s (Some d) ?J a"
    if "a \<in> set (get_all_accounts s)" for a ns ad ak
  proof -
    from assms(3) that have r: "get_ledger_balance s (account_code a) (Some d) ?J = 0
         \<or> \<bar>get_ledger_balance s (account_code a) (Some d) ?J\<bar> > 1 / 100"
      by (simp add: no_residue_def)
    from column_gap_row [OF get0_final_balances_settled [OF assms(1) that r] r]
    show ?thesis by (simp add: debit_balance_def)
  qed
  then have "column_gap (worksheet_data (akuntan_worksheet s d))
               = sum_list (map (debit_balance s (Some d) ?J) (get_all_accounts s))"
    by (simp add: akuntan_worksheet_def Let_def column_gap_concat cong: map_cong)
  with total_debit_balance [OF assms(1,2)] show ?thesis by simp
qed

lemma worksheet_totals:
  "total_akhir (akuntan_worksheet s d) = Some ft \<Longrightarrow>
   ft_lr_debet ft = ft_lr_kredit ft
   \<and> ft_neraca_debet ft - ft_neraca_kredit ft = column_gap (worksheet_data (akuntan_worksheet s d))"
  by (auto simp: akuntan_worksheet_def Let_def column_gap_def split: if_split_asm)

text \<open>
  Claim C6, as the code has it. In the ten-column worksheet the net income is the total of
  the income-statement credit column minus the total of its debit column. In the row of
  final totals (shown when the net income is not zero) the two income-statement totals
  are equal. The two balance-sheet totals agree within 0.01 when the account codes are
  distinct, every counted journal line (general or adjustment, dated up to the end date)
  is on a registered account, no account holds a non-zero adjusted balance of at most
  0.01, and the beginning balances together with the counted lines balance within 0.01 in
  total.
\<close>

theorem worksheet_final_totals_balance:
  "(total_akhir (akuntan_worksheet s d) = Some ft \<longrightarrow> ft_lr_debet ft = ft_lr_kredit ft)
   \<and> (distinct (map account_code (get_all_accounts s))
        \<and> lines_registered s (Some d) (Some [''GJ'', ''AJ''])
        \<and> no_residue s (Some d) (Some [''GJ'', ''AJ''])
        \<and> \<bar>imbalance s (Some d) (Some [''GJ'', ''AJ''])\<bar> \<le> 1 / 100
        \<and> total_akhir (akuntan_worksheet s d) = Some ft
      \<longrightarrow> \<bar>ft_neraca_debet ft - ft_neraca_kredit ft\<bar> \<le> 1 / 100)
   \<and> ws_net_income (akuntan_worksheet s d)
        = total_lr_kredit (akuntan_worksheet s d) - total_lr_debet (akuntan_worksheet s d)"
proof (intro conjI impI)
  assume "total_akhir (akuntan_worksheet s d) = Some ft"
  then show "ft_lr_debet ft = ft_lr_kredit ft" by (simp add: worksheet_totals)
next
  assume h: "distinct (map account_code (get_all_accounts s))
        \<and> lines_registered s (Some d) (Some [''GJ'', ''AJ''])
        \<and> no_residue s (Some d) (Some [''GJ'', ''AJ''])
        \<and> \<bar>imbalance s (Some d) (Some [''GJ'', ''AJ''])\<bar> \<le> 1 / 100
        \<and> total_akhir (akuntan_worksheet s d) = Some ft"
  then have "ft_neraca_debet ft - ft_neraca_kredit ft
               = imbalance s (Some d) (Some [''GJ'', ''AJ''])"
    using worksheet_totals [of s d ft] worksheet_gap [of s d] by simp
  with h show "\<bar>ft_neraca_debet ft - ft_neraca_kredit ft\<bar> \<le> 1 / 100" by simp
next
  show "ws_net_income (akuntan_worksheet s d)
        = total_lr_kredit (akuntan_worksheet s d) - total_lr_debet (akuntan_worksheet s d)"
    by (simp add: akuntan_worksheet_def Let_def)
qed

lemma ex_db_no_residue: "no_residue ex_db (Some 31) (Some [''GJ'', ''AJ''])"
  by code_simp

lemma ex_db_total_akhir:
  "total_akhir (akuntan_worksheet ex_db 31)
     = Some \<lparr>ft_lr_debet = 100000, ft_lr_kredit = 100000, ft_neraca_debet = 580000,
             ft_neraca_kredit = 580000\<rparr>"
  by code_simp

theorem worksheet_final_totals_balance_witness:
  "distinct (map account_code (get_all_accounts ex_db))
   \<and> lines_registered ex_db (Some 31) (Some [''GJ'', ''AJ''])
   \<and> no_residue ex_db (Some 31) (Some [''GJ'', ''AJ''])
   \<and> \<bar>imbalance ex_db (Some 31) (Some [''GJ'', ''AJ''])\<bar> \<le> 1 / 100
   \<and> total_akhir (akuntan_worksheet ex_db 31)
        = Some \<lparr>ft_lr_debet = 100000, ft_lr_kredit = 100000, ft_neraca_debet = 580000,
                ft_neraca_kredit = 580000\<rparr>
   \<and> ft_lr_debet \<lparr>ft_lr_debet = 100000, ft_lr_kredit = 100000, ft_neraca_debet = 580000,
                   ft_neraca_kredit = 580000\<rparr>
       = ft_lr_kredit \<lparr>ft_lr_debet = 100000, ft_lr_kredit = 100000, ft_neraca_debet = 580000,
                       ft_neraca_kredit = 580000\<rparr>
   \<and> \<bar>ft_neraca_debet \<lparr>ft_lr_debet = 100000, ft_lr_kredit = 100000,
                          ft_neraca_debet = 580000, ft_neraca_kredit = 580000\<rparr>
        - ft_neraca_kredit \<lparr>ft_lr_debet = 100000, ft_lr_kredit = 100000,
                            ft_neraca_debet = 580000, ft_neraca_kredit = 580000\<rparr>\<bar>
       \<le> 1 / 100"
proof -
  have i: "\<bar>imbalance ex_db (Some 31) (Some [''GJ'', ''AJ''])\<bar> \<le> 1 / 100"
    by (simp add: ex_db_imbalance)
  from worksheet_final_totals_balance
         [of ex_db 31 "\<lparr>ft_lr_debet = 100000, ft_lr_kredit = 100000,
                        ft_neraca_debet = 580000, ft_neraca_kredit = 580000\<rparr>"]
       ex_db_distinct ex_db_lines_registered ex_db_no_residue i ex_db_total_akhir
  show ?thesis by blast
qed

text \<open>The claim as stated fails for the balance-sheet pair, in the same two ways as the
  balance-sheet identity: the per-reference tolerance adds up, and a balance of at most
  0.01 is left out of the adjusted balances.\<close>

theorem worksheet_final_totals_balance_counterexample:
  "ref_balanced ex_rounding_db \<and> beginning_balanced ex_rounding_db
   \<and> total_akhir (akuntan_worksheet ex_rounding_db 31)
       = Some \<lparr>ft_lr_debet = 200, ft_lr_kredit = 200, ft_neraca_debet = 10001 / 50,
               ft_neraca_kredit = 200\<rparr>
   \<and> \<not> \<bar>(10001 / 50 :: money) - 200\<bar> \<le> 1 / 100
   \<and> ref_balanced ex_residue_db \<and> beginning_balanced ex_residue_db
   \<and> imbalance ex_residue_db (Some 31) (Some [''GJ'', ''AJ'']) = 0
   \<and> total_akhir (akuntan_worksheet ex_residue_db 31)
       = Some \<lparr>ft_lr_debet = 1 / 50, ft_lr_kredit = 1 / 50, ft_neraca_debet = 0,
               ft_neraca_kredit = 1 / 50\<rparr>
   \<and> \<not> \<bar>(0 :: money) - 1 / 50\<bar> \<le> 1 / 100"
  by code_simp

section \<open>Cash-flow statement: reconciliation of ending cash\<close>























end
